theory Spec2Isabelle
  imports Complex_Main "HOL-Library.Monad_Syntax"
begin

section \<open>Double-precision values\<close>

text \<open>
  The C++ type \<^verbatim>\<open>double\<close> is modelled by its real value when finite, and by
  \<open>PInf\<close>, \<open>MInf\<close> and \<open>NaN\<close> otherwise, with the IEEE-754 rules for the
  non-finite values. Rounding and overflow are not modelled, and the two zeros are
  not distinguished (a zero divisor counts as +0).
\<close>

datatype dbl = Fin real | PInf | MInf | NaN

instantiation dbl :: "{zero, one, plus, uminus, minus, times, inverse, abs, ord}"
begin

definition zero_dbl :: dbl where
  "0 = Fin 0"

definition one_dbl :: dbl where
  "1 = Fin 1"

fun plus_dbl :: "dbl \<Rightarrow> dbl \<Rightarrow> dbl" where
  "Fin a + Fin b = Fin (a + b)"
| "NaN + _ = NaN"
| "_ + NaN = NaN"
| "PInf + MInf = NaN"
| "MInf + PInf = NaN"
| "PInf + _ = PInf"
| "_ + PInf = PInf"
| "MInf + _ = MInf"
| "_ + MInf = MInf"

fun uminus_dbl :: "dbl \<Rightarrow> dbl" where
  "- Fin a = Fin (- a)"
| "- PInf = MInf"
| "- MInf = PInf"
| "- NaN = NaN"

definition minus_dbl :: "dbl \<Rightarrow> dbl \<Rightarrow> dbl" where
  "(a :: dbl) - b = a + (- b)"

fun times_dbl :: "dbl \<Rightarrow> dbl \<Rightarrow> dbl" where
  "Fin a * Fin b = Fin (a * b)"
| "NaN * _ = NaN"
| "_ * NaN = NaN"
| "Fin a * PInf = (if 0 < a then PInf else if a < 0 then MInf else NaN)"
| "Fin a * MInf = (if 0 < a then MInf else if a < 0 then PInf else NaN)"
| "PInf * Fin b = (if 0 < b then PInf else if b < 0 then MInf else NaN)"
| "MInf * Fin b = (if 0 < b then MInf else if b < 0 then PInf else NaN)"
| "PInf * PInf = PInf"
| "PInf * MInf = MInf"
| "MInf * PInf = MInf"
| "MInf * MInf = PInf"

fun divide_dbl :: "dbl \<Rightarrow> dbl \<Rightarrow> dbl" where
  "Fin a div Fin b =
     (if b \<noteq> 0 then Fin (a / b)
      else if 0 < a then PInf else if a < 0 then MInf else NaN)"
| "NaN div _ = NaN"
| "_ div NaN = NaN"
| "Fin a div PInf = Fin 0"
| "Fin a div MInf = Fin 0"
| "PInf div Fin b = (if 0 \<le> b then PInf else MInf)"
| "MInf div Fin b = (if 0 \<le> b then MInf else PInf)"
| "PInf div _ = NaN"
| "MInf div _ = NaN"

definition inverse_dbl :: "dbl \<Rightarrow> dbl" where
  "inverse (a :: dbl) = Fin 1 div a"

fun abs_dbl :: "dbl \<Rightarrow> dbl" where
  "\<bar>Fin a\<bar> = Fin \<bar>a\<bar>"
| "\<bar>PInf\<bar> = PInf"
| "\<bar>MInf\<bar> = PInf"
| "\<bar>NaN\<bar> = NaN"

fun less_dbl :: "dbl \<Rightarrow> dbl \<Rightarrow> bool" where
  "Fin a < Fin b \<longleftrightarrow> a < b"
| "NaN < _ \<longleftrightarrow> False"
| "_ < NaN \<longleftrightarrow> False"
| "MInf < MInf \<longleftrightarrow> False"
| "MInf < _ \<longleftrightarrow> True"
| "_ < MInf \<longleftrightarrow> False"
| "PInf < _ \<longleftrightarrow> False"
| "_ < PInf \<longleftrightarrow> True"

definition less_eq_dbl :: "dbl \<Rightarrow> dbl \<Rightarrow> bool" where
  "(a :: dbl) \<le> b \<longleftrightarrow> a < b \<or> (a = b \<and> a \<noteq> NaN)"

instance ..

end

text \<open>\<^verbatim>\<open>std::sqrt\<close>, \<^verbatim>\<open>pow(x, 0.5)\<close>, \<^verbatim>\<open>exp\<close> and \<^verbatim>\<open>log\<close> on doubles.\<close>

fun dsqrt :: "dbl \<Rightarrow> dbl" where
  "dsqrt (Fin a) = (if a < 0 then NaN else Fin (sqrt a))"
| "dsqrt PInf = PInf"
| "dsqrt MInf = NaN"
| "dsqrt NaN = NaN"

fun pow_half :: "dbl \<Rightarrow> dbl" where
  "pow_half (Fin a) = (if a < 0 then NaN else Fin (sqrt a))"
| "pow_half PInf = PInf"
| "pow_half MInf = PInf"
| "pow_half NaN = NaN"

fun dexp :: "dbl \<Rightarrow> dbl" where
  "dexp (Fin a) = Fin (exp a)"
| "dexp PInf = PInf"
| "dexp MInf = Fin 0"
| "dexp NaN = NaN"

fun dlog :: "dbl \<Rightarrow> dbl" where
  "dlog (Fin a) = (if 0 < a then Fin (ln a) else if a = 0 then MInf else NaN)"
| "dlog PInf = PInf"
| "dlog MInf = NaN"
| "dlog NaN = NaN"

definition finite_dbl :: "dbl \<Rightarrow> bool" where
  "finite_dbl a = (case a of Fin _ \<Rightarrow> True | _ \<Rightarrow> False)"

instance dbl :: comm_monoid_add
proof (standard, goal_cases)
  case (1 u v w)
  show ?case by (cases u; cases v; cases w; simp)
next
  case (2 u v)
  show ?case by (cases u; cases v; simp)
next
  case (3 u)
  show ?case by (cases u; simp add: zero_dbl_def)
qed


section \<open>Armadillo matrices\<close>

text \<open>
  An \<^verbatim>\<open>arma::mat\<close> is its two dimensions and its elements; an \<^verbatim>\<open>arma::vec\<close> is a
  matrix with one column. Armadillo checks shapes and indices at run time and throws
  \<^verbatim>\<open>std::logic_error\<close> when they do not fit: an operation that can throw returns an
  option, \<open>None\<close> standing for the exception.
\<close>

record mat =
  n_rows :: nat
  n_cols :: nat
  elem :: "nat \<Rightarrow> nat \<Rightarrow> dbl"

definition n_elem :: "mat \<Rightarrow> nat" where
  "n_elem A = n_rows A * n_cols A"

definition same_size :: "mat \<Rightarrow> mat \<Rightarrow> bool" where
  "same_size A B \<longleftrightarrow> n_rows A = n_rows B \<and> n_cols A = n_cols B"

text \<open>Reading \<^verbatim>\<open>A(i,j)\<close>, reading \<^verbatim>\<open>v(i)\<close> of a column vector, writing \<^verbatim>\<open>A(i,j) = x\<close>.\<close>

definition elem_at :: "mat \<Rightarrow> nat \<Rightarrow> nat \<Rightarrow> dbl option" where
  "elem_at A i j = (if i < n_rows A \<and> j < n_cols A then Some (elem A i j) else None)"

definition vat :: "mat \<Rightarrow> nat \<Rightarrow> dbl option" where
  "vat v i = elem_at v i 0"

definition put :: "mat \<Rightarrow> nat \<Rightarrow> nat \<Rightarrow> dbl \<Rightarrow> mat option" where
  "put A i j x =
     (if i < n_rows A \<and> j < n_cols A
      then Some (A\<lparr>elem := (elem A)(i := (elem A i)(j := x))\<rparr>)
      else None)"

text \<open>Generators, and the elementwise operations with a scalar or a function.\<close>

definition fill :: "nat \<Rightarrow> nat \<Rightarrow> dbl \<Rightarrow> mat" where
  "fill r c x = \<lparr>n_rows = r, n_cols = c, elem = (\<lambda>i j. x)\<rparr>"

definition ones :: "nat \<Rightarrow> nat \<Rightarrow> mat" where
  "ones r c = fill r c 1"

definition zeros :: "nat \<Rightarrow> nat \<Rightarrow> mat" where
  "zeros r c = fill r c 0"

definition eye :: "nat \<Rightarrow> nat \<Rightarrow> mat" where
  "eye r c = \<lparr>n_rows = r, n_cols = c, elem = (\<lambda>i j. if i = j then 1 else 0)\<rparr>"

definition map_elem :: "(dbl \<Rightarrow> dbl) \<Rightarrow> mat \<Rightarrow> mat" where
  "map_elem f A = A\<lparr>elem := (\<lambda>i j. f (elem A i j))\<rparr>"

text \<open>\<^verbatim>\<open>A * B\<close>, \<^verbatim>\<open>A % B\<close>, \<^verbatim>\<open>A + B\<close>, \<^verbatim>\<open>A - B\<close>, \<^verbatim>\<open>A.t()\<close>.\<close>

definition mmul :: "mat \<Rightarrow> mat \<Rightarrow> mat option" where
  "mmul A B =
     (if n_cols A = n_rows B
      then Some \<lparr>n_rows = n_rows A, n_cols = n_cols B,
                 elem = (\<lambda>i j. \<Sum>k<n_cols A. elem A i k * elem B k j)\<rparr>
      else None)"

definition zip_elem :: "(dbl \<Rightarrow> dbl \<Rightarrow> dbl) \<Rightarrow> mat \<Rightarrow> mat \<Rightarrow> mat option" where
  "zip_elem f A B =
     (if same_size A B
      then Some \<lparr>n_rows = n_rows A, n_cols = n_cols A,
                 elem = (\<lambda>i j. f (elem A i j) (elem B i j))\<rparr>
      else None)"

definition schur :: "mat \<Rightarrow> mat \<Rightarrow> mat option" where
  "schur = zip_elem (*)"

definition madd :: "mat \<Rightarrow> mat \<Rightarrow> mat option" where
  "madd = zip_elem (+)"

definition msub :: "mat \<Rightarrow> mat \<Rightarrow> mat option" where
  "msub = zip_elem (-)"

definition trans_mat :: "mat \<Rightarrow> mat" where
  "trans_mat A = \<lparr>n_rows = n_cols A, n_cols = n_rows A, elem = (\<lambda>i j. elem A j i)\<rparr>"

text \<open>
  \<^verbatim>\<open>diagmat(X)\<close>: for a vector, the square matrix with the vector on its diagonal; for
  a matrix, the matrix itself with everything off the main diagonal set to zero.
\<close>

definition diagmat :: "mat \<Rightarrow> mat" where
  "diagmat X =
     (if n_cols X = 1 then
        \<lparr>n_rows = n_rows X, n_cols = n_rows X,
         elem = (\<lambda>i j. if i = j then elem X i 0 else 0)\<rparr>
      else if n_rows X = 1 then
        \<lparr>n_rows = n_cols X, n_cols = n_cols X,
         elem = (\<lambda>i j. if i = j then elem X 0 i else 0)\<rparr>
      else X\<lparr>elem := (\<lambda>i j. if i = j then elem X i j else 0)\<rparr>)"

text \<open>\<^verbatim>\<open>accu\<close>, \<^verbatim>\<open>mean\<close> of a vector, \<^verbatim>\<open>join_rows\<close>, \<^verbatim>\<open>fliplr\<close>, \<^verbatim>\<open>X.cols(a, b)\<close>.\<close>

definition accu :: "mat \<Rightarrow> dbl" where
  "accu A = (\<Sum>i<n_rows A. \<Sum>j<n_cols A. elem A i j)"

definition mean :: "mat \<Rightarrow> dbl" where
  "mean v = accu v / Fin (real (n_elem v))"

definition join_rows :: "mat \<Rightarrow> mat \<Rightarrow> mat option" where
  "join_rows A B =
     (if n_rows A = n_rows B
      then Some \<lparr>n_rows = n_rows A, n_cols = n_cols A + n_cols B,
                 elem = (\<lambda>i j. if j < n_cols A then elem A i j else elem B i (j - n_cols A))\<rparr>
      else None)"

definition fliplr :: "mat \<Rightarrow> mat" where
  "fliplr A = A\<lparr>elem := (\<lambda>i j. elem A i (n_cols A - 1 - j))\<rparr>"

definition cols :: "mat \<Rightarrow> nat \<Rightarrow> nat \<Rightarrow> mat option" where
  "cols A a b =
     (if a \<le> b \<and> b < n_cols A
      then Some \<lparr>n_rows = n_rows A, n_cols = b - a + 1, elem = (\<lambda>i j. elem A i (a + j))\<rparr>
      else None)"


text \<open>
  \<^verbatim>\<open>arma::vec v = A.row(i)\<close>: the row is a view with one row and \<open>n_cols A\<close> columns,
  and an \<^verbatim>\<open>arma::vec\<close> accepts only a shape with one column. Armadillo does not
  transpose: it throws \<^verbatim>\<open>std::logic_error\<close> unless the row has exactly one element.
  \<^verbatim>\<open>A.col(j)\<close> is the column as a column vector.
\<close>

definition row_vec :: "mat \<Rightarrow> nat \<Rightarrow> mat option" where
  "row_vec A i =
     (if i < n_rows A \<and> n_cols A = 1
      then Some \<lparr>n_rows = 1, n_cols = 1, elem = (\<lambda>_ _. elem A i 0)\<rparr>
      else None)"

definition col_vec :: "mat \<Rightarrow> nat \<Rightarrow> mat" where
  "col_vec A j = \<lparr>n_rows = n_rows A, n_cols = 1, elem = (\<lambda>k _. elem A k j)\<rparr>"

text \<open>A loop over a list whose body can throw.\<close>

fun foldM :: "('a \<Rightarrow> 's \<Rightarrow> 's option) \<Rightarrow> 'a list \<Rightarrow> 's \<Rightarrow> 's option" where
  "foldM f [] s = Some s"
| "foldM f (x # xs) s = (case f x s of None \<Rightarrow> None | Some s' \<Rightarrow> foldM f xs s')"

section \<open>The distance engine (panglossStruct.cpp)\<close>

record distance_element =
  row :: nat
  col :: nat
  distance :: dbl

definition distanceFunction :: "mat \<Rightarrow> mat \<Rightarrow> dbl option" where
  "distanceFunction vec_1 vec_2 =
     do { d \<leftarrow> msub vec_1 vec_2; Some (accu (map_elem abs d)) }"

definition threadDistance :: "nat \<Rightarrow> nat \<Rightarrow> mat \<Rightarrow> mat \<Rightarrow> distance_element option" where
  "threadDistance i j row_1 row_2 =
     do { d \<leftarrow> distanceFunction row_1 row_2;
          Some \<lparr>row = i, col = j, distance = d\<rparr> }"

text \<open>
  \<^verbatim>\<open>dissimiliarityMatrix\<close> can end in two ways other than returning: with the
  exception of Armadillo, or in undefined behaviour, which the threaded loop has two
  ways into. A step that can fail returns \<open>fault + 'a\<close>; \<open>throwing\<close> turns the
  exception of an Armadillo operation into a fault, \<open>and_then\<close> runs the next step on
  a result and passes a fault on, and \<open>foldR\<close> is a loop over a list with such a body.
\<close>

datatype fault = Logic_error | Undefined_behaviour

definition throwing :: "'a option \<Rightarrow> fault + 'a" where
  "throwing r = (case r of None \<Rightarrow> Inl Logic_error | Some v \<Rightarrow> Inr v)"

definition and_then :: "fault + 'a \<Rightarrow> ('a \<Rightarrow> fault + 'b) \<Rightarrow> fault + 'b" where
  "and_then r f = (case r of Inl e \<Rightarrow> Inl e | Inr v \<Rightarrow> f v)"

fun foldR :: "('a \<Rightarrow> 's \<Rightarrow> fault + 's) \<Rightarrow> 'a list \<Rightarrow> 's \<Rightarrow> fault + 's" where
  "foldR f [] s = Inr s"
| "foldR f (x # xs) s = and_then (f x s) (foldR f xs)"

text \<open>
  Line 81 starts \<^verbatim>\<open>threadDistance\<close> with \<^verbatim>\<open>std::async\<close> and hands it
  \<^verbatim>\<open>std::cref(ref_row)\<close> and \<^verbatim>\<open>std::cref(new_row)\<close>: the task holds references to two
  local vectors, not their values. \<^verbatim>\<open>new_row\<close> is destroyed at line 83, where the
  block of its declaration ends, and \<^verbatim>\<open>ref_row\<close> at the end of the outer pass; the
  future is read later, at line 74 of a later pass or at line 89. No launch policy is
  given, so the task may run on a thread of its own at any moment after line 81, or be
  deferred until \<^verbatim>\<open>get()\<close>. The source does not decide when the task reads its rows:
  the model takes it as the parameter \<open>in_time\<close>, where \<open>in_time i j\<close> says that the
  task of cell \<open>(i, j)\<close> has read both rows before line 83 is reached. Such a task
  computes on the rows as they are at line 81, and its future holds the outcome of
  \<^verbatim>\<open>threadDistance\<close> on them (a \<open>distance_element\<close>, or the exception, which
  \<^verbatim>\<open>get()\<close> throws again). Any other task reads a destroyed vector, which is
  undefined behaviour: its future is \<open>Dangling\<close>, and no value is attributed to it.
\<close>

datatype future = Computed "distance_element option" | Dangling

definition async :: "(nat \<Rightarrow> nat \<Rightarrow> bool) \<Rightarrow> nat \<Rightarrow> nat \<Rightarrow> mat \<Rightarrow> mat \<Rightarrow> future" where
  "async in_time i j ref_row new_row =
     (if in_time i j then Computed (threadDistance i j ref_row new_row) else Dangling)"

definition get :: "future \<Rightarrow> fault + distance_element" where
  "get f = (case f of Computed r \<Rightarrow> throwing r | Dangling \<Rightarrow> Inl Undefined_behaviour)"

text \<open>
  The queue of futures is a list, the front at its head. \<open>take_result\<close> is the block
  of lines 74-78 and 89-93: it takes the front of the queue and writes its distance to
  both cells. \<^verbatim>\<open>front()\<close> of an empty queue is undefined behaviour.
\<close>

definition write_result :: "distance_element \<Rightarrow> mat \<Rightarrow> mat option" where
  "write_result d dmat =
     do { dmat1 \<leftarrow> put dmat (row d) (col d) (distance d);
          put dmat1 (col d) (row d) (distance d) }"

definition take_result :: "mat \<times> future list \<Rightarrow> fault + (mat \<times> future list)" where
  "take_result st =
     (case snd st of
        [] \<Rightarrow> Inl Undefined_behaviour
      | f # q \<Rightarrow>
          and_then (get f) (\<lambda>d.
          and_then (throwing (write_result d (fst st))) (\<lambda>dmat'. Inr (dmat', q))))"

text \<open>The body of the inner loop (lines 62-83 without \<^verbatim>\<open>NO_THREAD\<close>).\<close>

definition inner_body ::
  "(nat \<Rightarrow> nat \<Rightarrow> bool) \<Rightarrow> mat \<Rightarrow> nat \<Rightarrow> nat \<Rightarrow> mat \<Rightarrow> nat \<Rightarrow> mat \<times> future list
     \<Rightarrow> fault + (mat \<times> future list)" where
  "inner_body in_time inMat threads i ref_row j st =
     (if i = j then and_then (throwing (put (fst st) i j 0)) (\<lambda>dmat'. Inr (dmat', snd st))
      else
        and_then (if length (snd st) = threads then take_result st else Inr st) (\<lambda>st1.
        and_then (throwing (row_vec inMat j)) (\<lambda>new_row.
        Inr (fst st1, snd st1 @ [async in_time i j ref_row new_row]))))"

text \<open>The body of the outer loop (lines 59-84).\<close>

definition outer_body ::
  "(nat \<Rightarrow> nat \<Rightarrow> bool) \<Rightarrow> mat \<Rightarrow> nat \<Rightarrow> nat \<Rightarrow> mat \<times> future list
     \<Rightarrow> fault + (mat \<times> future list)" where
  "outer_body in_time inMat threads i st =
     and_then (throwing (row_vec inMat i)) (\<lambda>ref_row.
     foldR (inner_body in_time inMat threads i ref_row) [i..<n_rows inMat] st)"

text \<open>The final loop, which empties the queue (lines 87-94).\<close>

fun drain :: "future list \<Rightarrow> mat \<Rightarrow> fault + mat" where
  "drain [] dmat = Inr dmat"
| "drain (f # q) dmat =
     and_then (get f) (\<lambda>d. and_then (throwing (write_result d dmat)) (drain q))"

text \<open>
  \<^verbatim>\<open>arma::mat dist(matSize, matSize)\<close> does not initialise its elements: the model
  takes their initial values as the parameter \<open>garbage\<close>.
\<close>

definition dissimiliarityMatrix ::
  "(nat \<Rightarrow> nat \<Rightarrow> dbl) \<Rightarrow> (nat \<Rightarrow> nat \<Rightarrow> bool) \<Rightarrow> mat \<Rightarrow> nat \<Rightarrow> fault + mat" where
  "dissimiliarityMatrix garbage in_time inMat threads =
     (let matSize = n_rows inMat;
          dmat = \<lparr>n_rows = matSize, n_cols = matSize, elem = garbage\<rparr>
      in and_then (foldR (outer_body in_time inMat threads) [0..<matSize] (dmat, []))
           (\<lambda>st. drain (snd st) (fst st)))"

text \<open>
  The model is the function as it compiles, without \<^verbatim>\<open>NO_THREAD\<close>. With
  \<^verbatim>\<open>NO_THREAD\<close> defined the file does not compile: the loop of lines 87-94 stands
  outside the conditional sections and names the queue, which line 53 declares only
  without \<^verbatim>\<open>NO_THREAD\<close>. The synchronous branch of lines 69-70 therefore belongs to
  no build, and has no definition here.
\<close>

section \<open>Metric MDS (panglossStruct.cpp)\<close>

text \<open>
  \<^verbatim>\<open>arma::eig_sym(eigval, eigvec, B)\<close> belongs to Armadillo: the model takes it as the
  parameter \<open>eig_sym\<close>, which returns the vector of eigenvalues and the matrix of
  eigenvectors it stores. Steps 1 to 3 of the source compute the matrix \<open>B\<close>
  (\<open>double_centre\<close>, lines 24-31), steps 4 and 5 the coordinates (\<open>scale_eigen\<close>,
  lines 34-43).
\<close>

definition smul :: "dbl \<Rightarrow> mat \<Rightarrow> mat" where
  "smul c A = map_elem (\<lambda>x. c * x) A"

definition square_elem :: "mat \<Rightarrow> mat" where
  "square_elem A = map_elem (\<lambda>x. x * x) A"

definition double_centre :: "mat \<Rightarrow> nat \<Rightarrow> mat option" where
  "double_centre D matSize =
     (let P = square_elem D in
      do {
        J \<leftarrow> msub (eye matSize matSize)
               (smul (Fin 1 / Fin (real matSize)) (ones matSize matSize));
        JP \<leftarrow> mmul (smul (Fin (- (1 / 2))) J) P;
        mmul JP J })"

text \<open>
  \<^verbatim>\<open>mds.cols(0, dimensions - 1)\<close> with \<^verbatim>\<open>int dimensions\<close>: a negative last index
  converts to an unsigned value beyond every column, which Armadillo refuses.
\<close>

definition cols_upto :: "mat \<Rightarrow> int \<Rightarrow> mat option" where
  "cols_upto A b = (if b < 0 then None else cols A 0 (nat b))"

definition scale_eigen :: "(mat \<Rightarrow> mat \<times> mat) \<Rightarrow> mat \<Rightarrow> int \<Rightarrow> mat option" where
  "scale_eigen eig_sym B dimensions =
     (let (eigval, eigvec) = eig_sym B in
      do {
        scaled \<leftarrow> mmul eigvec (diagmat (map_elem dsqrt eigval));
        let mds = fliplr scaled;
        cols_upto mds (dimensions - 1) })"

definition metricMDS ::
  "(mat \<Rightarrow> mat \<times> mat) \<Rightarrow> (nat \<Rightarrow> nat \<Rightarrow> dbl) \<Rightarrow> (nat \<Rightarrow> nat \<Rightarrow> bool) \<Rightarrow> mat \<Rightarrow> int \<Rightarrow> nat
     \<Rightarrow> fault + mat" where
  "metricMDS eig_sym garbage in_time populationMatrix dimensions threads =
     (let matSize = n_rows populationMatrix in
      and_then (dissimiliarityMatrix garbage in_time populationMatrix threads) (\<lambda>D.
      throwing (do {
        B \<leftarrow> double_centre D matSize;
        scale_eigen eig_sym B dimensions })))"

section \<open>The logistic fit (seerBinaryAssoc.cpp)\<close>

text \<open>
  Modelled from the spec: the class \<^verbatim>\<open>Kmer\<close> is declared in seer.hpp, which is not
  among the sources. The spec's feature record owns a presence/absence vector and the
  mutable results: coefficient, standard error, p-value and an ordered list of
  diagnostic tags, to which \<^verbatim>\<open>add_comment\<close> appends.
\<close>

record kmer =
  get_x :: mat
  beta :: dbl
  standard_error :: dbl
  p_val :: dbl
  comments :: "string list"

definition add_comment :: "string \<Rightarrow> kmer \<Rightarrow> kmer" where
  "add_comment c k = k\<lparr>comments := comments k @ [c]\<rparr>"

text \<open>
  What the file uses and seer.hpp, dlib or another file of the repository provides:
  the constants \<^verbatim>\<open>convergence_limit\<close> and \<^verbatim>\<open>max_nr_iterations\<close>, the inversion
  \<^verbatim>\<open>inv_covar\<close> (which may throw), the standard normal distribution function used by
  \<^verbatim>\<open>normalPval\<close>, and \<^verbatim>\<open>dlib::find_max\<close> with the BFGS strategy, which is given
  \<^verbatim>\<open>x_train\<close>, \<^verbatim>\<open>y_train\<close> and the starting point and returns the point it ends
  in, or throws. \<open>uninit\<close> holds the initial contents of a matrix that is declared
  without being filled.
\<close>

record ext =
  convergence_limit :: dbl
  max_nr_iterations :: nat
  inv_covar :: "mat \<Rightarrow> mat option"
  normal_cdf :: "dbl \<Rightarrow> dbl"
  find_max :: "mat \<Rightarrow> mat \<Rightarrow> mat \<Rightarrow> mat option"
  uninit :: "nat \<Rightarrow> nat \<Rightarrow> dbl"

text \<open>
  Modelled from the spec: \<^verbatim>\<open>normalPval\<close> is defined in a file that is not among the
  sources. The spec gives the p-value as the two-sided upper tail of the standard
  normal distribution at \<open>|W|\<close>, that is \<open>2 (1 - \<Phi>(|W|))\<close>.
\<close>

definition normalPval :: "ext \<Rightarrow> dbl \<Rightarrow> dbl" where
  "normalPval E W = Fin 2 * (Fin 1 - normal_cdf E \<bar>W\<bar>)"

text \<open>The result of a call that changes the k-mer: it returns, or it throws.\<close>

datatype outcome = Returned kmer | Thrown kmer

definition predictLogitProbs :: "mat \<Rightarrow> mat \<Rightarrow> mat option" where
  "predictLogitProbs X b =
     do { exponents \<leftarrow> mmul X b;
          Some (map_elem (\<lambda>e. Fin 1 / (Fin 1 + dexp (- e))) exponents) }"

text \<open>\<^verbatim>\<open>x.col(i)\<close> checks its index.\<close>

definition col_at :: "mat \<Rightarrow> nat \<Rightarrow> mat option" where
  "col_at A j = (if j < n_cols A then Some (col_vec A j) else None)"

definition info_cell :: "mat \<Rightarrow> mat \<Rightarrow> nat \<Rightarrow> nat \<Rightarrow> mat \<Rightarrow> mat option" where
  "info_cell X y_trans i j I =
     do { ci \<leftarrow> col_at X i;
          cj \<leftarrow> col_at X j;
          t \<leftarrow> schur y_trans ci;
          u \<leftarrow> schur t cj;
          I1 \<leftarrow> put I i j (accu u);
          if i \<noteq> j then do { v \<leftarrow> elem_at I1 i j; put I1 j i v } else Some I1 }"

definition info_loops :: "mat \<Rightarrow> mat \<Rightarrow> mat \<Rightarrow> mat option" where
  "info_loops X y_trans I =
     (let j_max = n_rows I
      in foldM (\<lambda>i. foldM (info_cell X y_trans i) [i..<j_max]) [0..<n_cols I] I)"

definition one_minus :: "mat \<Rightarrow> mat" where
  "one_minus A = map_elem (\<lambda>p. Fin 1 - p) A"

definition varCovarMat :: "ext \<Rightarrow> mat \<Rightarrow> mat \<Rightarrow> mat option" where
  "varCovarMat E X b =
     do { y_pred \<leftarrow> predictLogitProbs X b;
          y_trans \<leftarrow> schur y_pred (one_minus y_pred);
          I \<leftarrow> info_loops X y_trans
                 \<lparr>n_rows = n_elem b, n_cols = n_elem b, elem = uninit E\<rparr>;
          inv_covar E I }"

text \<open>
  The starting points. Both functions compute the intercept with the same expression
  (lines 31 and 92); the other entries are 1 in \<^verbatim>\<open>doLogit\<close> and 0 in
  \<^verbatim>\<open>newtonRaphson\<close>.
\<close>

definition start_intercept :: "mat \<Rightarrow> dbl" where
  "start_intercept y_train = dlog (mean y_train / (Fin 1 - mean y_train))"

definition doLogit_start :: "mat \<Rightarrow> nat \<Rightarrow> mat" where
  "doLogit_start y_train n =
     \<lparr>n_rows = n, n_cols = 1,
      elem = (\<lambda>i _. if i = 0 then start_intercept y_train else Fin 1)\<rparr>"

definition nr_start :: "mat \<Rightarrow> nat \<Rightarrow> mat option" where
  "nr_start y_train n = put (zeros n 1) 0 0 (start_intercept y_train)"

text \<open>
  The two updates of the loop body (lines 103-120), on the current probabilities and
  the matrix \<^verbatim>\<open>var_covar_mat\<close> of line 102. Products associate to the left, as in C++.
\<close>

definition nr_update :: "mat \<Rightarrow> mat \<Rightarrow> mat \<Rightarrow> mat \<Rightarrow> mat \<Rightarrow> mat option" where
  "nr_update y_train x_design y_pred var_covar_mat b1 =
     do { vx \<leftarrow> mmul var_covar_mat (trans_mat x_design);
          r \<leftarrow> msub y_train y_pred;
          step \<leftarrow> mmul vx r;
          madd b1 step }"

definition firth_update :: "ext \<Rightarrow> mat \<Rightarrow> mat \<Rightarrow> mat \<Rightarrow> mat \<Rightarrow> mat \<Rightarrow> mat option" where
  "firth_update E y_train x_design y_pred var_covar_mat b1 =
     do { pp \<leftarrow> mmul y_pred (one_minus y_pred);
          let W = diagmat pp;
          xw \<leftarrow> mmul (trans_mat x_design) W;
          xwx \<leftarrow> mmul xw x_design;
          inner \<leftarrow> inv_covar E xwx;
          h1 \<leftarrow> mmul (map_elem dsqrt W) x_design;
          h2 \<leftarrow> mmul h1 inner;
          h3 \<leftarrow> mmul h2 (trans_mat x_design);
          H \<leftarrow> mmul h3 (map_elem dsqrt W);
          let correction = fill (n_rows y_train) 1 (Fin (1 / 2));
          r \<leftarrow> msub y_train y_pred;
          c \<leftarrow> msub correction y_pred;
          hc \<leftarrow> schur (diagmat H) c;
          s \<leftarrow> madd r hc;
          step \<leftarrow> mmul var_covar_mat s;
          madd b1 step }"

text \<open>
  The argument of \<^verbatim>\<open>inv_covar\<close> at line 102:
  \<^verbatim>\<open>x_design.t() * diagmat(y_pred % (arma::ones(y_pred.n_rows) - y_pred)) * x_design\<close>.
\<close>

definition weighted_gram :: "mat \<Rightarrow> mat \<Rightarrow> mat option" where
  "weighted_gram x_design y_pred =
     do { w \<leftarrow> msub (ones (n_rows y_pred) 1) y_pred;
          yw \<leftarrow> schur y_pred w;
          xw \<leftarrow> mmul (trans_mat x_design) (diagmat yw);
          mmul xw x_design }"

text \<open>
  One pass of the loop body: the new state (the iterates with the new one pushed, and
  \<^verbatim>\<open>var_covar_mat\<close>), and whether the test of line 123 leaves the loop.
\<close>

definition nr_body ::
  "ext \<Rightarrow> mat \<Rightarrow> mat \<Rightarrow> bool \<Rightarrow> mat list \<times> mat \<Rightarrow> ((mat list \<times> mat) \<times> bool) option" where
  "nr_body E y_train x_design firth st =
     (let b0 = last (fst st) in
      do { y_pred \<leftarrow> predictLogitProbs x_design b0;
           xwx \<leftarrow> weighted_gram x_design y_pred;
           var_covar_mat \<leftarrow> inv_covar E xwx;
           b1 \<leftarrow> (if firth then firth_update E y_train x_design y_pred var_covar_mat b0
                  else nr_update y_train x_design y_pred var_covar_mat b0);
           new \<leftarrow> vat b1 1;
           old \<leftarrow> vat b0 1;
           Some ((fst st @ [b1], var_covar_mat), \<bar>new - old\<bar> < convergence_limit E) })"

text \<open>The loop of lines 96-127; the third argument counts the passes that are left.\<close>

fun nr_loop ::
  "ext \<Rightarrow> mat \<Rightarrow> mat \<Rightarrow> bool \<Rightarrow> nat \<Rightarrow> mat list \<times> mat \<Rightarrow> (mat list \<times> mat) option" where
  "nr_loop E y_train x_design firth 0 st = Some st"
| "nr_loop E y_train x_design firth (Suc left) st =
     (case nr_body E y_train x_design firth st of
        None \<Rightarrow> None
      | Some (st', stop) \<Rightarrow>
          if stop then Some st' else nr_loop E y_train x_design firth left st')"

text \<open>Lines 147-153: the results written after the loop.\<close>

definition write_fit :: "ext \<Rightarrow> kmer \<Rightarrow> mat list \<times> mat \<Rightarrow> outcome" where
  "write_fit E k st =
     (case vat (last (fst st)) 1 of
        None \<Rightarrow> Thrown k
      | Some b \<Rightarrow>
          let k1 = k\<lparr>beta := b\<rparr> in
          (case elem_at (snd st) 1 1 of
             None \<Rightarrow> Thrown k1
           | Some v \<Rightarrow>
               let se = pow_half v;
                   k2 = k1\<lparr>standard_error := se\<rparr>;
                   W = \<bar>beta k2\<bar> / se
               in Returned (k2\<lparr>p_val := normalPval E W\<rparr>)))"

function newtonRaphson :: "ext \<Rightarrow> kmer \<Rightarrow> mat \<Rightarrow> mat \<Rightarrow> bool \<Rightarrow> outcome" where
  "newtonRaphson E k y_train x_design firth =
     (case nr_start y_train (n_cols x_design) of
        None \<Rightarrow> Thrown k
      | Some starting_point \<Rightarrow>
          (case nr_loop E y_train x_design firth (max_nr_iterations E)
                  ([starting_point], \<lparr>n_rows = 0, n_cols = 0, elem = uninit E\<rparr>) of
             None \<Rightarrow> Thrown k
           | Some st \<Rightarrow>
               if length (fst st) = max_nr_iterations E then
                 (if \<not> firth
                  then newtonRaphson E (add_comment ''nr-fail'' k) y_train x_design True
                  else Returned (add_comment ''firth-fail'' k))
               else write_fit E k st))"
  by pat_completeness auto

termination
  by (relation "measure (\<lambda>(E, k, y_train, x_design, firth). if firth then 0 else 1)") auto

declare newtonRaphson.simps [simp del]

text \<open>The body of the \<^verbatim>\<open>try\<close> block of \<^verbatim>\<open>doLogit\<close> (lines 42-64).\<close>

definition bfgs_fit :: "ext \<Rightarrow> kmer \<Rightarrow> mat \<Rightarrow> mat \<Rightarrow> mat \<Rightarrow> mat \<Rightarrow> outcome" where
  "bfgs_fit E k y_train x_train x_design starting_point =
     (case find_max E x_train y_train starting_point of
        None \<Rightarrow> Thrown k
      | Some b_vector \<Rightarrow>
          (case vat b_vector 1 of
             None \<Rightarrow> Thrown k
           | Some b_1 \<Rightarrow>
               let k1 = k\<lparr>beta := b_1\<rparr> in
               (case varCovarMat E x_design b_vector of
                  None \<Rightarrow> Thrown k1
                | Some V \<Rightarrow>
                    (case elem_at V 1 1 of
                       None \<Rightarrow> Thrown k1
                     | Some v \<Rightarrow>
                         let se = pow_half v;
                             k2 = k1\<lparr>standard_error := se\<rparr>;
                             W = \<bar>b_1\<bar> / se
                         in Returned (k2\<lparr>p_val := normalPval E W\<rparr>)))))"

definition doLogit :: "ext \<Rightarrow> kmer \<Rightarrow> mat \<Rightarrow> mat \<Rightarrow> outcome" where
  "doLogit E k y_train x_train =
     (case join_rows (ones (n_rows x_train) 1) x_train of
        None \<Rightarrow> Thrown k
      | Some x_design \<Rightarrow>
          let starting_point = doLogit_start y_train (n_cols x_design) in
          (case bfgs_fit E k y_train x_train x_design starting_point of
             Returned k' \<Rightarrow> Returned k'
           | Thrown k' \<Rightarrow>
               newtonRaphson E (add_comment ''bfgs-fail'' k') y_train x_design False))"

definition logisticTest :: "ext \<Rightarrow> kmer \<Rightarrow> mat \<Rightarrow> outcome" where
  "logisticTest E k y_train = doLogit E k y_train (get_x k)"

definition logisticTest_mds :: "ext \<Rightarrow> kmer \<Rightarrow> mat \<Rightarrow> mat \<Rightarrow> outcome" where
  "logisticTest_mds E k y_train mds =
     (case join_rows (get_x k) mds of
        None \<Rightarrow> Thrown k
      | Some x_train \<Rightarrow> doLogit E k y_train x_train)"

section \<open>Notions used in the statements\<close>

text \<open>A write that is known to be in range, and a matrix with \<open>n\<close> rows and \<open>n\<close> columns.\<close>

definition upd :: "mat \<Rightarrow> nat \<Rightarrow> nat \<Rightarrow> dbl \<Rightarrow> mat" where
  "upd A i j x = A\<lparr>elem := (elem A)(i := (elem A i)(j := x))\<rparr>"

definition square_of :: "nat \<Rightarrow> mat \<Rightarrow> bool" where
  "square_of n A \<longleftrightarrow> n_rows A = n \<and> n_cols A = n"

text \<open>
  Two nested loops over the upper triangle of a square matrix, which write the value
  \<open>v i j\<close> to the cell \<open>(i, j)\<close> and to its mirror image: \<open>tri_inv\<close> says which cells
  hold their value when the loops reach \<open>(i, j)\<close>, and \<open>tri_step\<close> is the write of
  one pass.
\<close>

definition tri_inv :: "nat \<Rightarrow> (nat \<Rightarrow> nat \<Rightarrow> dbl) \<Rightarrow> nat \<Rightarrow> nat \<Rightarrow> mat \<Rightarrow> bool" where
  "tri_inv n v i j B \<longleftrightarrow>
     square_of n B \<and>
     (\<forall>r<n. \<forall>c<n. (min r c < i \<or> (min r c = i \<and> max r c < j))
        \<longrightarrow> elem B r c = v (min r c) (max r c))"

definition tri_step :: "(nat \<Rightarrow> nat \<Rightarrow> dbl) \<Rightarrow> nat \<Rightarrow> nat \<Rightarrow> mat \<Rightarrow> mat" where
  "tri_step v i j B =
     (if i = j then upd B i i (v i i) else upd (upd B i j (v i j)) j i (v i j))"

text \<open>A 0/1 matrix; the column vector of a list; the cells of a matrix, row by row.\<close>

definition binary_mat :: "mat \<Rightarrow> bool" where
  "binary_mat A \<longleftrightarrow> (\<forall>i<n_rows A. \<forall>j<n_cols A. elem A i j = Fin 0 \<or> elem A i j = Fin 1)"

definition column :: "real list \<Rightarrow> mat" where
  "column xs = \<lparr>n_rows = length xs, n_cols = 1, elem = (\<lambda>i _. Fin (xs ! i))\<rparr>"

definition cells :: "mat \<Rightarrow> dbl list list" where
  "cells A = map (\<lambda>i. map (elem A i) [0..<n_cols A]) [0..<n_rows A]"

text \<open>
  A state of the threaded loops whose oldest future belongs to a task that read a
  destroyed row, and a result that is either undefined behaviour or satisfies \<open>P\<close>.
\<close>

definition late :: "nat \<Rightarrow> mat \<times> future list \<Rightarrow> bool" where
  "late n st \<longleftrightarrow> square_of n (fst st) \<and> snd st \<noteq> [] \<and> hd (snd st) = Dangling"

definition undefined_or :: "('s \<Rightarrow> bool) \<Rightarrow> fault + 's \<Rightarrow> bool" where
  "undefined_or P r = (case r of Inl e \<Rightarrow> e = Undefined_behaviour | Inr s \<Rightarrow> P s)"

text \<open>
  Following the spec's words, the result of the distance engine, which it also gives
  as the result of the computation without concurrency ("computes each pair
  synchronously in the same order, producing identical numeric results"): the full
  symmetric matrix in which \<open>distance(i, j)\<close> is the sum of the absolute elementwise
  differences between row \<open>i\<close> and row \<open>j\<close>, with zeros on the diagonal.
\<close>

definition synchronous_spec :: "mat \<Rightarrow> mat" where
  "synchronous_spec inMat =
     \<lparr>n_rows = n_rows inMat, n_cols = n_rows inMat,
      elem = (\<lambda>i j. if i = j then 0
                     else \<Sum>k<n_cols inMat. \<bar>elem inMat i k - elem inMat j k\<bar>)\<rparr>"

text \<open>
  A 3 by 2 binary matrix with rows 00, 10 and 11, and the contents of a fresh matrix
  whose cells all hold NaN.
\<close>

definition inMat_example :: mat where
  "inMat_example =
     \<lparr>n_rows = 3, n_cols = 2,
      elem = (\<lambda>i j. if (i = 1 \<and> j = 0) \<or> i = 2 then Fin 1 else Fin 0)\<rparr>"

definition garbage_example :: "nat \<Rightarrow> nat \<Rightarrow> dbl" where
  "garbage_example = (\<lambda>_ _. NaN)"

text \<open>
  The spec's description of metric MDS: the centering matrix \<open>J = I - (1/n) 11\<^sup>T\<close>, the
  matrix \<open>B = -0.5 J P\<^sup>2 J\<close>, and the coordinate of sample \<open>r\<close> in dimension \<open>k\<close>:
  the eigenvector with the \<open>k\<close>-th largest eigenvalue, scaled by the square root of
  that eigenvalue.
\<close>

definition centring :: "nat \<Rightarrow> nat \<Rightarrow> nat \<Rightarrow> dbl" where
  "centring n i j = (if i = j then 1 else 0) - Fin 1 / Fin (real n) * 1"

definition centred :: "mat \<Rightarrow> nat \<Rightarrow> nat \<Rightarrow> nat \<Rightarrow> dbl" where
  "centred D n i j =
     (\<Sum>l<n. (\<Sum>k<n. Fin (- (1 / 2)) * centring n i k * (elem D k l * elem D k l))
                * centring n l j)"

definition coordinate :: "mat \<Rightarrow> mat \<Rightarrow> nat \<Rightarrow> nat \<Rightarrow> nat \<Rightarrow> dbl" where
  "coordinate eigval eigvec n r k =
     elem eigvec r (n - 1 - k) * dsqrt (elem eigval (n - 1 - k) 0)"

text \<open>A decomposition that returns \<open>n\<close> eigenvalues and an \<open>n\<close> by \<open>n\<close> matrix.\<close>

definition eig_shape :: "nat \<Rightarrow> mat \<times> mat \<Rightarrow> bool" where
  "eig_shape n e \<longleftrightarrow> n_rows (fst e) = n \<and> n_cols (fst e) = 1 \<and> square_of n (snd e)"

definition finite_mat :: "mat \<Rightarrow> bool" where
  "finite_mat A \<longleftrightarrow> (\<forall>i<n_rows A. \<forall>j<n_cols A. finite_dbl (elem A i j))"

text \<open>
  Three samples at 0, 1 and 2 on a line (\<open>column [0, 1, 2]\<close>) have the distances
  1, 1 and 2; \<open>eig_sym_example\<close> is the eigendecomposition of their \<open>B\<close>
  (eigenvalues 0, 0, 2), and \<open>eig_sym_rounded\<close> what a floating-point solver may
  return for the same matrix: the same eigenvectors, the smallest eigenvalue a little
  below zero. \<open>dist_square\<close> holds the distances between the four corners 00, 10, 01
  and 11 of the unit square, counted in differing positions, which no points of a
  Euclidean space have; \<open>eig_sym_square\<close> is the eigendecomposition of their \<open>B\<close>
  (eigenvalues -1, 0, 2, 2).
\<close>

definition eig_sym_example :: "mat \<Rightarrow> mat \<times> mat" where
  "eig_sym_example B =
     (\<lparr>n_rows = 3, n_cols = 1, elem = (\<lambda>i _. Fin (if i = 2 then 2 else 0))\<rparr>,
      \<lparr>n_rows = 3, n_cols = 3,
       elem = (\<lambda>i j. Fin (if j = 0 then (if i = 1 then 1 else 0)
                          else if i = 1 then 0
                          else if j = 2 \<and> i = 2 then - (1 / sqrt 2) else 1 / sqrt 2))\<rparr>)"

definition eig_sym_rounded :: "mat \<Rightarrow> mat \<times> mat" where
  "eig_sym_rounded B =
     (\<lparr>n_rows = 3, n_cols = 1,
       elem = (\<lambda>i _. Fin (if i = 2 then 2 else if i = 1 then 0 else - (1 / 10 ^ 16)))\<rparr>,
      snd (eig_sym_example B))"

definition dist_square :: mat where
  "dist_square =
     \<lparr>n_rows = 4, n_cols = 4,
      elem = (\<lambda>i j. Fin (if i = j then 0 else if i + j = 3 then 2 else 1))\<rparr>"

definition eig_sym_square :: "mat \<Rightarrow> mat \<times> mat" where
  "eig_sym_square B =
     (\<lparr>n_rows = 4, n_cols = 1,
       elem = (\<lambda>i _. Fin (if i = 0 then - 1 else if i = 1 then 0 else 2))\<rparr>,
      \<lparr>n_rows = 4, n_cols = 4,
       elem = (\<lambda>i j. Fin (if (j = 0 \<and> (i = 1 \<or> i = 2)) \<or> (j = 2 \<and> (i = 2 \<or> i = 3))
                             \<or> (j = 3 \<and> (i = 1 \<or> i = 3))
                          then - (1 / 2) else 1 / 2))\<rparr>)"

text \<open>
  The information matrix \<open>X\<^sup>T W X\<close> with \<open>W = diag(p (1 - p))\<close> at a coefficient vector,
  and the standard error the spec derives from it: the square root of entry \<open>(1, 1)\<close>
  of its inverse.
\<close>

definition information :: "mat \<Rightarrow> mat \<Rightarrow> mat option" where
  "information X b = do { p \<leftarrow> predictLogitProbs X b; weighted_gram X p }"

definition se_at :: "ext \<Rightarrow> mat \<Rightarrow> mat \<Rightarrow> dbl option" where
  "se_at E X b =
     do { J \<leftarrow> information X b;
          V \<leftarrow> inv_covar E J;
          v \<leftarrow> elem_at V 1 1;
          Some (pow_half v) }"

text \<open>
  The cell \<open>(i, j)\<close> of the matrix that \<open>varCovarMat\<close> fills: the sum over the samples
  of \<open>p (1 - p)\<close> times column \<open>i\<close> times column \<open>j\<close>.
\<close>

definition info_entry :: "mat \<Rightarrow> mat \<Rightarrow> nat \<Rightarrow> nat \<Rightarrow> dbl" where
  "info_entry X y_trans i j = (\<Sum>r<n_rows y_trans. elem y_trans r 0 * elem X r i * elem X r j)"

text \<open>
  Modelled from the spec: \<^verbatim>\<open>inv_covar\<close> is defined in a file that is not among the
  sources; the spec asks for the inverse of the information matrix. For the examples
  the inverse is computed by the adjugate formula, with the determinant expanded along
  the first row; a matrix that is not square is refused.
\<close>

fun det_fn :: "nat \<Rightarrow> (nat \<Rightarrow> nat \<Rightarrow> dbl) \<Rightarrow> dbl" where
  "det_fn 0 f = Fin 1"
| "det_fn (Suc n) f =
     (\<Sum>j<Suc n. (if even j then f 0 j else - f 0 j)
        * det_fn n (\<lambda>r c. f (Suc r) (if c < j then c else Suc c)))"

definition cofactor :: "nat \<Rightarrow> (nat \<Rightarrow> nat \<Rightarrow> dbl) \<Rightarrow> nat \<Rightarrow> nat \<Rightarrow> dbl" where
  "cofactor n f i j =
     (let m = det_fn (n - 1)
                (\<lambda>r c. f (if r < i then r else Suc r) (if c < j then c else Suc c))
      in if even (i + j) then m else - m)"

definition inv_adj :: "mat \<Rightarrow> mat option" where
  "inv_adj A =
     (if n_rows A = n_cols A
      then Some \<lparr>n_rows = n_rows A, n_cols = n_rows A,
                 elem = (\<lambda>i j. cofactor (n_rows A) (elem A) j i / det_fn (n_rows A) (elem A))\<rparr>
      else None)"

text \<open>
  Modelled from the spec: the distribution function \<open>\<Phi>\<close> of the standard normal
  distribution, which \<^verbatim>\<open>normalPval\<close> takes from a library, as its power series.
\<close>

definition std_normal_cdf :: "real \<Rightarrow> real" where
  "std_normal_cdf t =
     1 / 2 + (\<Sum>k. (- 1) ^ k * t ^ (2 * k + 1) / (2 ^ k * fact k * real (2 * k + 1)))
             / sqrt (2 * pi)"

fun Phi :: "dbl \<Rightarrow> dbl" where
  "Phi (Fin t) = Fin (std_normal_cdf t)"
| "Phi PInf = Fin 1"
| "Phi MInf = Fin 0"
| "Phi NaN = NaN"

text \<open>
  Concrete settings: a threshold of \<open>10\<^sup>-\<^sup>7\<close> and at most 1000 iterations, with an
  optimiser that throws (\<open>ext_example\<close>) or that returns the point \<open>(0, 0)\<close>
  (\<open>ext_bfgs\<close>).
\<close>

definition ext_example :: ext where
  "ext_example =
     \<lparr>convergence_limit = Fin (1 / 10000000), max_nr_iterations = 1000,
      inv_covar = inv_adj, normal_cdf = Phi, find_max = (\<lambda>_ _ _. None),
      uninit = (\<lambda>_ _. NaN)\<rparr>"

definition ext_bfgs :: ext where
  "ext_bfgs = ext_example\<lparr>find_max := (\<lambda>_ _ _. Some (zeros 2 1))\<rparr>"

text \<open>
  Concrete data: two samples whose feature separates the response (\<open>y_sep\<close>, \<open>x_sep\<close>); four
  samples whose feature is unrelated to the response (\<open>y_four\<close>, \<open>x_four\<close>), and the
  same four with a covariate equal to the response (\<open>x_cov\<close>). \<open>with_intercept\<close>
  puts the column of ones in front, as \<open>doLogit\<close> does.
\<close>

definition with_intercept :: "mat \<Rightarrow> mat" where
  "with_intercept X =
     \<lparr>n_rows = n_rows X, n_cols = 1 + n_cols X,
      elem = (\<lambda>i j. if j < 1 then 1 else elem X i (j - 1))\<rparr>"

definition y_sep :: mat where
  "y_sep = column [0, 1]"

definition x_sep :: mat where
  "x_sep = column [0, 1]"

definition y_four :: mat where
  "y_four = column [0, 1, 0, 1]"

definition x_four :: mat where
  "x_four = column [0, 0, 1, 1]"

definition x_cov :: mat where
  "x_cov = \<lparr>n_rows = 4, n_cols = 2,
            elem = (\<lambda>i j. Fin (if j = 0 then [0, 0, 1, 1] ! i else [0, 1, 0, 1] ! i))\<rparr>"

definition kmer_example :: "mat \<Rightarrow> kmer" where
  "kmer_example v = \<lparr>get_x = v, beta = 0, standard_error = 0, p_val = 0, comments = []\<rparr>"

text \<open>
  What the loop of \<open>newtonRaphson\<close> stores: the value of coefficient 1 in each
  iterate, the starting point first.
\<close>

definition nr_trace :: "ext \<Rightarrow> mat \<Rightarrow> mat \<Rightarrow> bool \<Rightarrow> dbl option list option" where
  "nr_trace E y_train x_design firth =
     do { s \<leftarrow> nr_start y_train (n_cols x_design);
          st \<leftarrow> nr_loop E y_train x_design firth (max_nr_iterations E)
                  ([s], \<lparr>n_rows = 0, n_cols = 0, elem = uninit E\<rparr>);
          Some (map (\<lambda>b. vat b 1) (fst st)) }"

text \<open>The logistic function and the weight \<open>p (1 - p)\<close> it gives, on the reals.\<close>

definition sigmoid :: "real \<Rightarrow> real" where
  "sigmoid t = 1 / (1 + exp (- t))"

definition logit_weight :: "real \<Rightarrow> real" where
  "logit_weight t = sigmoid t * (1 - sigmoid t)"

text \<open>
  The iterates that the loop of \<open>newtonRaphson\<close> stores, the starting point first,
  and the last of them, which is the fitted coefficient vector.
\<close>

definition nr_iterates :: "ext \<Rightarrow> mat \<Rightarrow> mat \<Rightarrow> bool \<Rightarrow> mat list option" where
  "nr_iterates E y_train x_design firth =
     do { s \<leftarrow> nr_start y_train (n_cols x_design);
          st \<leftarrow> nr_loop E y_train x_design firth (max_nr_iterations E)
                  ([s], \<lparr>n_rows = 0, n_cols = 0, elem = uninit E\<rparr>);
          Some (fst st) }"

definition nr_fitted :: "ext \<Rightarrow> mat \<Rightarrow> mat \<Rightarrow> bool \<Rightarrow> mat option" where
  "nr_fitted E y_train x_design firth = map_option last (nr_iterates E y_train x_design firth)"

text \<open>The matrix that \<open>varCovarMat\<close> fills before it inverts it.\<close>

definition fisher_loops :: "ext \<Rightarrow> mat \<Rightarrow> mat \<Rightarrow> mat option" where
  "fisher_loops E X b =
     do { y_pred \<leftarrow> predictLogitProbs X b;
          y_trans \<leftarrow> schur y_pred (one_minus y_pred);
          info_loops X y_trans \<lparr>n_rows = n_elem b, n_cols = n_elem b, elem = uninit E\<rparr> }"

section \<open>Arithmetic of doubles\<close>

lemma times_dbl_commute: "a * b = b * (a :: dbl)"
  by (cases a; cases b) simp_all

section \<open>Sums, writes and loops over a triangle\<close>

lemma sum_upto_numeral:
  "sum f {..<numeral k} = sum f {..<pred_numeral k} + (f (pred_numeral k) :: dbl)"
  by (simp add: numeral_eq_Suc)

lemma sum_upto_one: "sum f {..<1::nat} = (f 0 :: dbl)"
  by simp

lemma sum_upto_Suc0: "sum f {..<Suc 0} = (f 0 :: dbl)"
  by simp

lemma sum_Fin: "finite S \<Longrightarrow> (\<Sum>k\<in>S. Fin (f k)) = Fin (\<Sum>k\<in>S. f k)"
  by (induction S rule: finite_induct) (simp_all add: zero_dbl_def)

lemma upd_simps [simp]:
  "n_rows (upd A i j x) = n_rows A"
  "n_cols (upd A i j x) = n_cols A"
  "elem (upd A i j x) r c = (if r = i \<and> c = j then x else elem A r c)"
  by (simp_all add: upd_def)

lemma upd_other: "\<not> (r = i \<and> c = j) \<Longrightarrow> elem (upd A i j x) r c = elem A r c"
  by (simp add: upd_def)

lemma upd_commute:
  "(i, j) \<noteq> (r, c) \<Longrightarrow> upd (upd A i j x) r c y = upd (upd A r c y) i j x"
  by (rule mat.equality) (auto simp: fun_eq_iff upd_def)

lemma put_upd: "put A i j x = (if i < n_rows A \<and> j < n_cols A then Some (upd A i j x) else None)"
  by (simp add: put_def upd_def)

lemma foldM_upt_inv:
  assumes "P a s" and "a \<le> b"
    and "\<And>k s. a \<le> k \<Longrightarrow> k < b \<Longrightarrow> P k s \<Longrightarrow> \<exists>s'. f k s = Some s' \<and> P (Suc k) s'"
  shows "\<exists>s'. foldM f [a..<b] s = Some s' \<and> P b s'"
  using assms
proof (induction "b - a" arbitrary: a s)
  case 0
  then show ?case by simp
next
  case (Suc m)
  then have ab: "a < b" by simp
  from Suc.prems(3) [of a s] Suc.prems(1) ab
  obtain s1 where s1: "f a s = Some s1" "P (Suc a) s1" by auto
  have "\<exists>s'. foldM f [Suc a..<b] s1 = Some s' \<and> P b s'"
  proof (rule Suc.hyps(1))
    show "m = b - Suc a" using Suc.hyps(2) by simp
    show "P (Suc a) s1" by (rule s1(2))
    show "Suc a \<le> b" using ab by simp
    show "\<And>k s. Suc a \<le> k \<Longrightarrow> k < b \<Longrightarrow> P k s \<Longrightarrow> \<exists>s'. f k s = Some s' \<and> P (Suc k) s'"
      using Suc.prems(3) by simp
  qed
  with s1(1) ab show ?case by (simp add: upt_conv_Cons)
qed

lemma tri_invD:
  assumes "tri_inv n v i j B" "r < n" "c < n"
    and "min r c < i \<or> (min r c = i \<and> max r c < j)"
  shows "elem B r c = v (min r c) (max r c)"
  by (rule assms(1) [unfolded tri_inv_def, THEN conjunct2, rule_format, OF assms(2,3,4)])

lemma tri_step_inv:
  assumes "tri_inv n v i j B" "i \<le> j" "j < n"
  shows "tri_inv n v i (Suc j) (tri_step v i j B)"
  unfolding tri_inv_def
proof (intro conjI allI impI)
  show "square_of n (tri_step v i j B)"
    using assms(1) by (simp add: tri_inv_def tri_step_def square_of_def)
next
  fix r c
  assume rc: "r < n" "c < n"
    and cov: "min r c < i \<or> min r c = i \<and> max r c < Suc j"
  show "elem (tri_step v i j B) r c = v (min r c) (max r c)"
  proof (cases "(r = i \<and> c = j) \<or> (r = j \<and> c = i)")
    case True
    with assms(2) have "min r c = i" "max r c = j" by auto
    with True show ?thesis by (auto simp: tri_step_def)
  next
    case False
    with cov have "min r c < i \<or> min r c = i \<and> max r c < j"
      by arith
    with assms(1) rc have eq: "elem B r c = v (min r c) (max r c)"
      by (rule_tac tri_invD [of n v i j B r c])
    have "elem (tri_step v i j B) r c = elem B r c"
    proof (cases "i = j")
      case True
      with False show ?thesis by (auto simp: tri_step_def)
    next
      case ne: False
      have "elem (upd (upd B i j (v i j)) j i (v i j)) r c = elem (upd B i j (v i j)) r c"
        by (rule upd_other) (use False in blast)
      also have "\<dots> = elem B r c"
        by (rule upd_other) (use False in blast)
      finally show ?thesis using ne by (simp add: tri_step_def)
    qed
    with eq show ?thesis by simp
  qed
qed

lemma tri_fill:
  assumes "square_of n B0"
    and "\<And>i j B. i \<le> j \<Longrightarrow> j < n \<Longrightarrow> square_of n B \<Longrightarrow> step i j B = Some (tri_step v i j B)"
  shows "\<exists>B. foldM (\<lambda>i. foldM (step i) [i..<n]) [0..<n] B0 = Some B \<and> square_of n B
           \<and> (\<forall>r<n. \<forall>c<n. elem B r c = v (min r c) (max r c))"
proof -
  have inner: "\<exists>B'. foldM (step i) [i..<n] B = Some B' \<and> tri_inv n v (Suc i) (Suc i) B'"
    if "tri_inv n v i i B" "i < n" for i B
  proof -
    have "\<exists>B'. foldM (step i) [i..<n] B = Some B' \<and> tri_inv n v i n B'"
    proof (rule foldM_upt_inv [where P = "tri_inv n v i"])
      show "tri_inv n v i i B" by (rule that(1))
      show "i \<le> n" using that(2) by simp
      fix k s
      assume k: "i \<le> k" "k < n" "tri_inv n v i k s"
      then have "step i k s = Some (tri_step v i k s)"
        by (intro assms(2)) (simp_all add: tri_inv_def)
      with tri_step_inv [OF k(3,1,2)]
      show "\<exists>s'. step i k s = Some s' \<and> tri_inv n v i (Suc k) s'" by simp
    qed
    then obtain B' where B': "foldM (step i) [i..<n] B = Some B'" "tri_inv n v i n B'"
      by blast
    have "tri_inv n v (Suc i) (Suc i) B'"
      unfolding tri_inv_def
    proof (intro conjI allI impI)
      show "square_of n B'" using B'(2) by (simp add: tri_inv_def)
    next
      fix r c
      assume rc: "r < n" "c < n"
        and cov: "min r c < Suc i \<or> min r c = Suc i \<and> max r c < Suc i"
      then have "min r c < i \<or> min r c = i \<and> max r c < n"
        by arith
      with B'(2) rc show "elem B' r c = v (min r c) (max r c)"
        by (rule_tac tri_invD [of n v i n B' r c])
    qed
    with B'(1) show ?thesis by simp
  qed
  have "\<exists>B. foldM (\<lambda>i. foldM (step i) [i..<n]) [0..<n] B0 = Some B \<and> tri_inv n v n n B"
    by (rule foldM_upt_inv [where P = "\<lambda>i. tri_inv n v i i"])
       (use assms(1) inner in \<open>auto simp: tri_inv_def\<close>)
  then obtain B where B: "foldM (\<lambda>i. foldM (step i) [i..<n]) [0..<n] B0 = Some B"
    "tri_inv n v n n B"
    by blast
  have "elem B r c = v (min r c) (max r c)" if "r < n" "c < n" for r c
    by (rule tri_invD [OF B(2) that]) (use that in \<open>simp add: min_def\<close>)
  with B show ?thesis by (auto simp: tri_inv_def)
qed

section \<open>The distance engine: the layout of a row and the lifetime of the rows\<close>

lemma row_vec_layout: "n_cols A \<noteq> 1 \<Longrightarrow> row_vec A i = None"
  by (simp add: row_vec_def)

lemma dissimiliarityMatrix_layout:
  assumes "0 < n_rows inMat" "n_cols inMat \<noteq> 1"
  shows "dissimiliarityMatrix garbage in_time inMat threads = Inl Logic_error"
proof -
  from assms(1) have "[0..<n_rows inMat] = 0 # [1..<n_rows inMat]"
    by (simp add: upt_conv_Cons)
  then show ?thesis
    by (simp add: dissimiliarityMatrix_def outer_body_def row_vec_layout [OF assms(2)]
        throwing_def and_then_def)
qed

lemmas dist_ev = dissimiliarityMatrix_def outer_body_def inner_body_def take_result_def
  write_result_def get_def async_def threadDistance_def distanceFunction_def row_vec_def
  throwing_def and_then_def put_def msub_def zip_elem_def same_size_def accu_def map_elem_def
  column_def upt_rec cells_def minus_dbl_def zero_dbl_def
  sum_upto_numeral sum_upto_one sum_upto_Suc0

lemma undefined_or_simps [simp]:
  "undefined_or P (Inl e) \<longleftrightarrow> e = Undefined_behaviour"
  "undefined_or P (Inr s) \<longleftrightarrow> P s"
  by (simp_all add: undefined_or_def)

lemma undefined_or_and_then:
  assumes "undefined_or P r" "\<And>s. P s \<Longrightarrow> undefined_or Q (f s)"
  shows "undefined_or Q (and_then r f)"
  using assms by (cases r) (simp_all add: and_then_def)

lemma foldR_undefined_or:
  assumes "\<And>x s. x \<in> set xs \<Longrightarrow> P s \<Longrightarrow> undefined_or P (f x s)" and "P s"
  shows "undefined_or P (foldR f xs s)"
  using assms
proof (induction xs arbitrary: s)
  case Nil
  then show ?case by simp
next
  case (Cons x xs)
  have "undefined_or P (f x s)" by (rule Cons.prems(1)) (simp_all add: Cons.prems(2))
  moreover have "undefined_or P (foldR f xs s')" if "P s'" for s'
    by (rule Cons.IH) (simp_all add: Cons.prems(1) that)
  ultimately show ?case
    by (simp add: undefined_or_and_then)
qed

lemma inner_body_late:
  assumes "n_cols inMat = 1" "n_rows inMat = n" "i < n" "j < n" "late n st"
  shows "undefined_or (late n) (inner_body in_time inMat threads i ref_row j st)"
proof (cases "i = j")
  case True
  with assms(3,5) show ?thesis
    by (simp add: inner_body_def late_def square_of_def put_def throwing_def and_then_def)
next
  case False
  from assms(5) obtain q where q: "snd st = Dangling # q"
    by (cases "snd st") (simp_all add: late_def)
  show ?thesis
  proof (cases "length (snd st) = threads")
    case True
    with False q show ?thesis
      by (simp add: inner_body_def take_result_def get_def and_then_def)
  next
    case neq: False
    with False q assms(1,2,4,5) show ?thesis
      by (simp add: inner_body_def row_vec_def throwing_def and_then_def late_def)
  qed
qed

lemma outer_body_late:
  assumes "n_cols inMat = 1" "n_rows inMat = n" "i < n" "late n st"
  shows "undefined_or (late n) (outer_body in_time inMat threads i st)"
proof -
  have "undefined_or (late n)
          (foldR (inner_body in_time inMat threads i ref_row) [i..<n_rows inMat] st)" for ref_row
    by (rule foldR_undefined_or [where P = "late n"])
       (use assms in \<open>simp_all add: inner_body_late\<close>)
  with assms(1,2,3) show ?thesis
    by (simp add: outer_body_def row_vec_def throwing_def and_then_def)
qed

lemma first_pass_late:
  assumes "n_cols inMat = 1" "n_rows inMat = n" "2 \<le> n" "\<not> in_time 0 1"
  shows "undefined_or (late n)
           (outer_body in_time inMat threads 0 (\<lparr>n_rows = n, n_cols = n, elem = garbage\<rparr>, []))"
proof -
  from assms(3) have l: "[0..<n] = 0 # Suc 0 # [Suc (Suc 0)..<n]"
    by (simp add: upt_conv_Cons)
  let ?d = "\<lparr>n_rows = n, n_cols = n, elem = (garbage)(0 := (garbage 0)(0 := 0))\<rparr>"
  have rest: "undefined_or (late n)
          (foldR (inner_body in_time inMat threads 0 ref_row) [Suc (Suc 0)..<n] s)"
    if "late n s" for ref_row s
    by (rule foldR_undefined_or [where P = "late n"])
       (use assms that in \<open>simp_all add: inner_body_late\<close>)
  have one: "undefined_or (late n) (inner_body in_time inMat threads 0 ref_row (Suc 0) (?d, []))"
    for ref_row
    using assms
    by (simp add: inner_body_def take_result_def and_then_def row_vec_def throwing_def
        async_def late_def square_of_def)
  have "undefined_or (late n)
          (foldR (inner_body in_time inMat threads 0 ref_row) [0..<n]
             (\<lparr>n_rows = n, n_cols = n, elem = garbage\<rparr>, []))" for ref_row
  proof -
    have zero: "inner_body in_time inMat threads 0 ref_row 0
            (\<lparr>n_rows = n, n_cols = n, elem = garbage\<rparr>, []) = Inr (?d, [])"
      using assms(3) by (simp add: inner_body_def put_def throwing_def and_then_def)
    show ?thesis
      unfolding l
      by (simp add: zero and_then_def [of "Inr _"] undefined_or_and_then [OF one rest])
  qed
  with assms(1,2,3) show ?thesis
    by (simp add: outer_body_def row_vec_def throwing_def and_then_def)
qed

lemma drain_late:
  assumes "late n st"
  shows "drain (snd st) (fst st) = Inl Undefined_behaviour"
proof -
  from assms obtain q where "snd st = Dangling # q"
    by (cases "snd st") (simp_all add: late_def)
  then show ?thesis by (simp add: get_def and_then_def)
qed

lemma dissimiliarityMatrix_late:
  assumes "n_cols inMat = 1" "2 \<le> n_rows inMat" "\<not> in_time 0 1"
  shows "dissimiliarityMatrix garbage in_time inMat threads = Inl Undefined_behaviour"
proof -
  define n where "n = n_rows inMat"
  have n: "n_rows inMat = n" "2 \<le> n" using assms(2) by (simp_all add: n_def)
  from n(2) have l: "[0..<n] = 0 # [Suc 0..<n]"
    by (simp add: upt_conv_Cons)
  let ?init = "(\<lparr>n_rows = n, n_cols = n, elem = garbage\<rparr>, [])"
  have first: "undefined_or (late n) (outer_body in_time inMat threads 0 ?init)"
    by (rule first_pass_late [where in_time = in_time and inMat = inMat, OF assms(1) n assms(3)])
  have rest: "undefined_or (late n) (foldR (outer_body in_time inMat threads) [Suc 0..<n] s)"
    if "late n s" for s
    by (rule foldR_undefined_or [where P = "late n"])
       (use assms(1) n that in \<open>simp_all add: outer_body_late\<close>)
  have loops: "undefined_or (late n) (foldR (outer_body in_time inMat threads) [0..<n] ?init)"
    unfolding l by (simp add: undefined_or_and_then [OF first rest])
  have "undefined_or (\<lambda>_. False)
          (and_then (foldR (outer_body in_time inMat threads) [0..<n] ?init)
             (\<lambda>st. drain (snd st) (fst st)))"
    by (rule undefined_or_and_then [OF loops]) (simp add: drain_late)
  then show ?thesis
    by (cases "and_then (foldR (outer_body in_time inMat threads) [0..<n] ?init)
             (\<lambda>st. drain (snd st) (fst st))")
       (simp_all add: dissimiliarityMatrix_def n(1) Let_def)
qed

text \<open>
  C3: the claim fails on the code. \<open>inMat_example\<close> is binary and has two columns:
  line 59 constructs an \<^verbatim>\<open>arma::vec\<close> from its first row, Armadillo refuses the
  shape, and the call ends with \<^verbatim>\<open>std::logic_error\<close> for every worker count and
  every timing of the tasks, so that no matrix is returned. The binary matrix with the
  one column 0, 1 passes line 59; when its one task reads its rows after line 83, it
  reads a destroyed vector, and the call is undefined, for every worker count.
\<close>

theorem dissimiliarityMatrix_binary_fails:
  "binary_mat inMat_example
   \<and> dissimiliarityMatrix garbage in_time inMat_example threads = Inl Logic_error
   \<and> binary_mat (column [0, 1])
   \<and> dissimiliarityMatrix garbage (\<lambda>_ _. False) (column [0, 1]) threads
       = Inl Undefined_behaviour"
proof (intro conjI)
  show "binary_mat inMat_example"
    by (simp add: binary_mat_def inMat_example_def)
  show "dissimiliarityMatrix garbage in_time inMat_example threads = Inl Logic_error"
    by (rule dissimiliarityMatrix_layout) (simp_all add: inMat_example_def)
  show "binary_mat (column [0, 1])"
    by (simp add: binary_mat_def column_def less_Suc_eq)
  show "dissimiliarityMatrix garbage (\<lambda>_ _. False) (column [0, 1]) threads
          = Inl Undefined_behaviour"
    by (rule dissimiliarityMatrix_late) (simp_all add: column_def)
qed

theorem dissimiliarityMatrix_binary_fails_witness:
  "dissimiliarityMatrix garbage_example (\<lambda>_ _. True) inMat_example 2 = Inl Logic_error
   \<and> dissimiliarityMatrix garbage_example (\<lambda>_ _. False) (column [0, 1]) 1
       = Inl Undefined_behaviour"
  using dissimiliarityMatrix_binary_fails [of garbage_example "\<lambda>_ _. True" 2]
    dissimiliarityMatrix_binary_fails [of garbage_example "\<lambda>_ _. True" 1]
  by (intro conjI) (elim conjE, assumption)+

text \<open>
  C4: the claim fails on the code. For three samples at 0, 1 and 2 the synchronous
  computation of the spec gives the distances 1, 1 and 2, and so does the threaded
  computation with one worker and with two when every task reads its rows before
  line 83. When no task does, as when the tasks are deferred until their futures are
  read, or when only the task of cell \<open>(1, 2)\<close> is late, every worker count leads to
  undefined behaviour: what the threaded computation produces depends on the timing of
  its tasks, and is not the matrix of the synchronous computation.
\<close>

theorem dissimiliarityMatrix_timing:
  "cells (synchronous_spec (column [0, 1, 2]))
     = [[Fin 0, Fin 1, Fin 2], [Fin 1, Fin 0, Fin 1], [Fin 2, Fin 1, Fin 0]]
   \<and> map_sum id cells
       (dissimiliarityMatrix garbage_example (\<lambda>_ _. True) (column [0, 1, 2]) 1)
     = Inr [[Fin 0, Fin 1, Fin 2], [Fin 1, Fin 0, Fin 1], [Fin 2, Fin 1, Fin 0]]
   \<and> map_sum id cells
       (dissimiliarityMatrix garbage_example (\<lambda>_ _. True) (column [0, 1, 2]) 2)
     = Inr [[Fin 0, Fin 1, Fin 2], [Fin 1, Fin 0, Fin 1], [Fin 2, Fin 1, Fin 0]]
   \<and> dissimiliarityMatrix garbage (\<lambda>_ _. False) (column [0, 1, 2]) threads
     = Inl Undefined_behaviour
   \<and> dissimiliarityMatrix garbage (\<lambda>i j. (i, j) \<noteq> (1, 2)) (column [0, 1, 2]) threads
     = Inl Undefined_behaviour"
proof (intro conjI)
  show "cells (synchronous_spec (column [0, 1, 2]))
     = [[Fin 0, Fin 1, Fin 2], [Fin 1, Fin 0, Fin 1], [Fin 2, Fin 1, Fin 0]]"
    by (simp add: synchronous_spec_def dist_ev)
  show "map_sum id cells
       (dissimiliarityMatrix garbage_example (\<lambda>_ _. True) (column [0, 1, 2]) 1)
     = Inr [[Fin 0, Fin 1, Fin 2], [Fin 1, Fin 0, Fin 1], [Fin 2, Fin 1, Fin 0]]"
    by (simp add: dist_ev)
  show "map_sum id cells
       (dissimiliarityMatrix garbage_example (\<lambda>_ _. True) (column [0, 1, 2]) 2)
     = Inr [[Fin 0, Fin 1, Fin 2], [Fin 1, Fin 0, Fin 1], [Fin 2, Fin 1, Fin 0]]"
    by (simp add: dist_ev)
  show "dissimiliarityMatrix garbage (\<lambda>_ _. False) (column [0, 1, 2]) threads
     = Inl Undefined_behaviour"
    by (rule dissimiliarityMatrix_late) (simp_all add: column_def)
  show "dissimiliarityMatrix garbage (\<lambda>i j. (i, j) \<noteq> (1, 2)) (column [0, 1, 2]) threads
     = Inl Undefined_behaviour"
    by (simp add: dist_ev)
qed

section \<open>Metric MDS: the coordinates\<close>

lemma double_centre_value:
  assumes "square_of n D"
  shows "\<exists>B. double_centre D n = Some B \<and> square_of n B
           \<and> (\<forall>i j. elem B i j = centred D n i j)"
  using assms
  by (simp add: double_centre_def square_elem_def smul_def msub_def zip_elem_def same_size_def
      eye_def ones_def fill_def map_elem_def mmul_def square_of_def centred_def centring_def)

lemma scale_eigen_raw:
  assumes "eig_shape n (eig_sym B)" "1 \<le> d" "d \<le> int n"
  shows "\<exists>R. scale_eigen eig_sym B d = Some R \<and> n_rows R = n \<and> n_cols R = nat d
           \<and> (\<forall>r k. elem R r k =
                 (\<Sum>j<n. elem (snd (eig_sym B)) r j
                     * (if j = n - 1 - k then dsqrt (elem (fst (eig_sym B)) j 0) else 0)))"
proof -
  obtain eigval eigvec where e: "eig_sym B = (eigval, eigvec)" by (cases "eig_sym B")
  from assms(1) e have sh: "n_rows eigval = n" "n_cols eigval = 1" "n_rows eigvec = n" "n_cols eigvec = n"
    by (simp_all add: eig_shape_def square_of_def)
  from assms(2,3) have d: "\<not> d - 1 < 0" "nat (d - 1) < n" "nat (d - 1) + 1 = nat d"
    by auto
  show ?thesis
    using sh d
    by (simp add: scale_eigen_def e mmul_def diagmat_def map_elem_def fliplr_def cols_upto_def cols_def
        cong: if_cong)
qed

lemma NaN_right [simp]: "a * NaN = NaN" "a + NaN = NaN"
  by (cases a; simp)+

lemma sum_NaN:
  assumes "finite S" "a \<in> S" "f a = NaN"
  shows "sum f S = (NaN :: dbl)"
proof -
  have "sum f S = f a + sum f (S - {a})"
    using assms(1,2) by (rule sum.remove)
  then show ?thesis by (simp add: assms(3))
qed

lemma times_zero_finite: "finite_dbl a \<Longrightarrow> a * 0 = (0 :: dbl)"
  by (cases a) (simp_all add: finite_dbl_def zero_dbl_def)

lemma sum_pick:
  assumes "c < (n::nat)" "\<And>j. j < n \<Longrightarrow> finite_dbl (g j)"
  shows "(\<Sum>j<n. g j * (if j = c then h j else 0)) = g c * (h c :: dbl)"
proof -
  have "(\<Sum>j<n. g j * (if j = c then h j else 0)) = (\<Sum>j\<in>{..<n}. if j = c then g j * h j else 0)"
    by (rule sum.cong) (simp_all add: times_zero_finite assms(2))
  also have "\<dots> = (if c \<in> {..<n} then g c * h c else 0)"
    by (rule sum.delta) simp
  finally show ?thesis using assms(1) by simp
qed


lemma metricMDS_unfold:
  assumes "dissimiliarityMatrix garbage in_time M threads = Inr D"
    and "double_centre D (n_rows M) = Some B"
  shows "metricMDS eig_sym garbage in_time M d threads = throwing (scale_eigen eig_sym B d)"
  by (simp add: metricMDS_def assms and_then_def)

lemma scale_eigen_coordinates:
  assumes "eig_shape n (eig_sym B)" "finite_mat (snd (eig_sym B))" "1 \<le> d" "d \<le> int n"
  shows "\<exists>R. scale_eigen eig_sym B d = Some R \<and> n_rows R = n \<and> n_cols R = nat d
           \<and> (\<forall>r<n. \<forall>k<nat d.
                 elem R r k = coordinate (fst (eig_sym B)) (snd (eig_sym B)) n r k)"
proof -
  from scale_eigen_raw [where eig_sym = eig_sym and B = B, OF assms(1,3,4)]
  obtain R where R: "scale_eigen eig_sym B d = Some R" "n_rows R = n" "n_cols R = nat d"
    and raw: "\<forall>r k. elem R r k =
       (\<Sum>j<n. elem (snd (eig_sym B)) r j
           * (if j = n - 1 - k then dsqrt (elem (fst (eig_sym B)) j 0) else 0))"
    by blast
  have "elem R r k = coordinate (fst (eig_sym B)) (snd (eig_sym B)) n r k"
    if "r < n" "k < nat d" for r k
  proof -
    have c: "n - 1 - k < n" using that(1) by simp
    have f: "finite_dbl (elem (snd (eig_sym B)) r j)" if "j < n" for j
      using assms(1,2) that \<open>r < n\<close> by (simp add: finite_mat_def eig_shape_def square_of_def)
    from raw have "elem R r k =
       (\<Sum>j<n. elem (snd (eig_sym B)) r j
           * (if j = n - 1 - k then dsqrt (elem (fst (eig_sym B)) j 0) else 0))"
      by blast
    also have "\<dots> = elem (snd (eig_sym B)) r (n - 1 - k)
                  * dsqrt (elem (fst (eig_sym B)) (n - 1 - k) 0)"
      by (rule sum_pick [OF c f])
    finally show ?thesis by (simp add: coordinate_def)
  qed
  with R show ?thesis by blast
qed

lemma scale_eigen_negative:
  assumes "eig_shape n (eig_sym B)" and "v < 0" and "elem (fst (eig_sym B)) c 0 = Fin v"
    and "c < n" and "1 \<le> d" and "d \<le> int n" and "n - 1 - c < nat d"
  shows "\<exists>R. scale_eigen eig_sym B d = Some R \<and> n - 1 - c < n_cols R
           \<and> (\<forall>r. elem R r (n - 1 - c) = NaN)"
proof -
  from scale_eigen_raw [where eig_sym = eig_sym and B = B, OF assms(1,5,6)]
  obtain R where R: "scale_eigen eig_sym B d = Some R" "n_cols R = nat d"
    and raw: "\<forall>r k. elem R r k =
       (\<Sum>j<n. elem (snd (eig_sym B)) r j
           * (if j = n - 1 - k then dsqrt (elem (fst (eig_sym B)) j 0) else 0))"
    by blast
  have k: "n - 1 - (n - 1 - c) = c" using assms(4) by simp
  have "elem R r (n - 1 - c) = NaN" for r
  proof -
    from raw have "elem R r (n - 1 - c) =
       (\<Sum>j<n. elem (snd (eig_sym B)) r j
           * (if j = n - 1 - (n - 1 - c) then dsqrt (elem (fst (eig_sym B)) j 0) else 0))"
      by blast
    also have "\<dots> =
       (\<Sum>j<n. elem (snd (eig_sym B)) r j
           * (if j = c then dsqrt (elem (fst (eig_sym B)) j 0) else 0))"
      by (simp only: k)
    also have "\<dots> = NaN"
      by (rule sum_NaN [where a = c]) (use assms(2,3,4) in simp_all)
    finally show ?thesis .
  qed
  with R assms(7) show ?thesis by simp
qed

text \<open>
  C5: for every dissimilarity matrix \<open>D\<close> over \<open>n\<close> samples, every dimensionality \<open>d\<close>
  between 1 and \<open>n\<close>, and an eigendecomposition that returns \<open>n\<close> eigenvalues and an
  \<open>n\<close> by \<open>n\<close> matrix of finite eigenvectors, lines 24-43 compute a matrix \<open>R\<close> with
  \<open>n\<close> rows and exactly \<open>d\<close> columns. The matrix they decompose is
  \<open>B = -0.5 J P\<^sup>2 J\<close> with \<open>J = I - (1/n) 11\<^sup>T\<close> and \<open>P\<^sup>2\<close> the elementwise square of
  \<open>D\<close>; column \<open>k\<close> of \<open>R\<close> is eigenvector \<open>n - 1 - k\<close> scaled by the square root of
  its eigenvalue, so that the ascending order of the decomposition is reversed and the
  first \<open>d\<close> columns kept. \<open>metricMDS\<close> returns this \<open>R\<close> whenever its distance step
  returns \<open>D\<close>.
\<close>

theorem metricMDS_coordinates:
  assumes "square_of n D" and "1 \<le> d" and "d \<le> int n"
    and "\<And>B. double_centre D n = Some B \<Longrightarrow>
           eig_shape n (eig_sym B) \<and> finite_mat (snd (eig_sym B))"
  shows "\<exists>B R. double_centre D n = Some B
           \<and> (\<forall>i<n. \<forall>j<n. elem B i j = centred D n i j)
           \<and> scale_eigen eig_sym B d = Some R
           \<and> n_rows R = n \<and> n_cols R = nat d
           \<and> (\<forall>r<n. \<forall>k<nat d.
                 elem R r k = coordinate (fst (eig_sym B)) (snd (eig_sym B)) n r k)
           \<and> (\<forall>garbage in_time M threads.
                 n_rows M = n \<and> dissimiliarityMatrix garbage in_time M threads = Inr D
                 \<longrightarrow> metricMDS eig_sym garbage in_time M d threads = Inr R)"
proof -
  from double_centre_value [OF assms(1)]
  obtain B where B: "double_centre D n = Some B" "\<forall>i j. elem B i j = centred D n i j"
    by blast
  from assms(4) [OF B(1)]
  have sh: "eig_shape n (eig_sym B)" and fin: "finite_mat (snd (eig_sym B))"
    by auto
  from scale_eigen_coordinates [where eig_sym = eig_sym and B = B, OF sh fin assms(2,3)]
  obtain R where R: "scale_eigen eig_sym B d = Some R" "n_rows R = n" "n_cols R = nat d"
    "\<forall>r<n. \<forall>k<nat d. elem R r k = coordinate (fst (eig_sym B)) (snd (eig_sym B)) n r k"
    by blast
  have "metricMDS eig_sym garbage in_time M d threads = Inr R"
    if "n_rows M = n" "dissimiliarityMatrix garbage in_time M threads = Inr D"
    for garbage in_time M threads
    using metricMDS_unfold [OF that(2), of B eig_sym d] B(1) that(1) R(1)
    by (simp add: throwing_def)
  with B R show ?thesis by blast
qed

theorem metricMDS_coordinates_witness:
  "\<exists>D R. dissimiliarityMatrix garbage_example (\<lambda>_ _. True) (column [0, 1, 2]) 2 = Inr D
      \<and> cells D = [[Fin 0, Fin 1, Fin 2], [Fin 1, Fin 0, Fin 1], [Fin 2, Fin 1, Fin 0]]
      \<and> (\<exists>B. double_centre D 3 = Some B \<and> scale_eigen eig_sym_example B 1 = Some R)
      \<and> metricMDS eig_sym_example garbage_example (\<lambda>_ _. True) (column [0, 1, 2]) 1 2 = Inr R
      \<and> n_rows R = 3 \<and> n_cols R = 1
      \<and> elem R 0 0 = Fin 1 \<and> elem R 1 0 = Fin 0 \<and> elem R 2 0 = Fin (- 1)"
proof -
  have "\<exists>D. dissimiliarityMatrix garbage_example (\<lambda>_ _. True) (column [0, 1, 2]) 2 = Inr D
          \<and> square_of 3 D
          \<and> cells D = [[Fin 0, Fin 1, Fin 2], [Fin 1, Fin 0, Fin 1], [Fin 2, Fin 1, Fin 0]]"
    by (simp add: dist_ev square_of_def)
  then obtain D
    where D: "dissimiliarityMatrix garbage_example (\<lambda>_ _. True) (column [0, 1, 2]) 2 = Inr D"
      and sq: "square_of 3 D"
      and cs: "cells D = [[Fin 0, Fin 1, Fin 2], [Fin 1, Fin 0, Fin 1], [Fin 2, Fin 1, Fin 0]]"
    by blast
  have d: "(1::int) \<le> 1" "(1::int) \<le> int 3" by simp_all
  have e: "eig_shape 3 (eig_sym_example B) \<and> finite_mat (snd (eig_sym_example B))" for B
    by (simp add: eig_shape_def square_of_def finite_mat_def finite_dbl_def eig_sym_example_def)
  have n: "n_rows (column [0, 1, 2]) = 3" by (simp add: column_def)
  from metricMDS_coordinates [where eig_sym = eig_sym_example, OF sq d e]
  obtain B R where B: "double_centre D 3 = Some B" "scale_eigen eig_sym_example B 1 = Some R"
    and R: "n_rows R = 3" "n_cols R = nat 1"
    and co: "\<forall>r<3. \<forall>k<nat 1.
       elem R r k = coordinate (fst (eig_sym_example B)) (snd (eig_sym_example B)) 3 r k"
    and m: "\<forall>garbage in_time M threads.
       n_rows M = 3 \<and> dissimiliarityMatrix garbage in_time M threads = Inr D
       \<longrightarrow> metricMDS eig_sym_example garbage in_time M 1 threads = Inr R"
    by blast
  from m n D
  have run: "metricMDS eig_sym_example garbage_example (\<lambda>_ _. True) (column [0, 1, 2]) 1 2 = Inr R"
    by blast
  have v: "elem R r 0 = coordinate (fst (eig_sym_example B)) (snd (eig_sym_example B)) 3 r 0"
    if "r < 3" for r
    using co that by simp
  have "elem R 0 0 = Fin 1" "elem R 1 0 = Fin 0" "elem R 2 0 = Fin (- 1)"
    using v [of 0] v [of 1] v [of 2] by (simp_all add: coordinate_def eig_sym_example_def)
  with D cs B run R show ?thesis by auto
qed

text \<open>
  C9: nothing guards the square root of line 41. When the eigenvalue at index \<open>c\<close> is
  negative and its column (number \<open>n - 1 - c\<close> after the reversal) is among the \<open>d\<close>
  columns kept, every entry of that column is NaN, not zero, in the matrix \<open>R\<close> that
  lines 34-43 compute; \<open>metricMDS\<close> returns this \<open>R\<close> whenever its distance step
  returns a matrix whose double-centred form is \<open>B\<close>.
\<close>

theorem metricMDS_negative_eigenvalue:
  assumes "eig_shape n (eig_sym B)" and "\<exists>v<0. elem (fst (eig_sym B)) c 0 = Fin v"
    and "c < n" and "1 \<le> d" and "d \<le> int n" and "n - 1 - c < nat d"
  shows "\<exists>R. scale_eigen eig_sym B d = Some R
           \<and> n - 1 - c < n_cols R
           \<and> (\<forall>r<n. elem R r (n - 1 - c) = NaN \<and> elem R r (n - 1 - c) \<noteq> 0)
           \<and> (\<forall>garbage in_time M threads D.
                 n_rows M = n \<and> dissimiliarityMatrix garbage in_time M threads = Inr D
                 \<and> double_centre D n = Some B
                 \<longrightarrow> metricMDS eig_sym garbage in_time M d threads = Inr R)"
proof -
  from assms(2) obtain v where v: "v < 0" "elem (fst (eig_sym B)) c 0 = Fin v"
    by blast
  from scale_eigen_negative [where eig_sym = eig_sym and B = B, OF assms(1) v assms(3,4,5,6)]
  obtain R where R: "scale_eigen eig_sym B d = Some R" "n - 1 - c < n_cols R"
    "\<forall>r. elem R r (n - 1 - c) = NaN"
    by blast
  have "metricMDS eig_sym garbage in_time M d threads = Inr R"
    if "n_rows M = n" "dissimiliarityMatrix garbage in_time M threads = Inr D"
      "double_centre D n = Some B"
    for garbage in_time M threads D
    using metricMDS_unfold [OF that(2), of B eig_sym d] that(1,3) R(1)
    by (simp add: throwing_def)
  with R show ?thesis by (auto simp: zero_dbl_def)
qed

theorem metricMDS_negative_eigenvalue_witness:
  "(\<exists>B R. double_centre dist_square 4 = Some B \<and> scale_eigen eig_sym_square B 4 = Some R
        \<and> elem R 0 3 = NaN \<and> elem R 1 3 = NaN \<and> elem R 2 3 = NaN \<and> elem R 3 3 = NaN)
   \<and> (\<exists>R. metricMDS eig_sym_rounded garbage_example (\<lambda>_ _. True) (column [0, 1, 2]) 3 1 = Inr R
        \<and> elem R 0 2 = NaN \<and> elem R 1 2 = NaN \<and> elem R 2 2 = NaN)"
proof -
  have "square_of 4 dist_square" by (simp add: square_of_def dist_square_def)
  from double_centre_value [OF this]
  obtain B where B: "double_centre dist_square 4 = Some B" by blast
  have e: "eig_shape 4 (eig_sym_square B)"
    "\<exists>v<0. elem (fst (eig_sym_square B)) 0 0 = Fin v"
    by (simp_all add: eig_shape_def square_of_def eig_sym_square_def)
  have c: "(0::nat) < 4" "(1::int) \<le> 4" "(4::int) \<le> int 4" "(4::nat) - 1 - 0 < nat 4"
    by simp_all
  from metricMDS_negative_eigenvalue [where eig_sym = eig_sym_square and B = B, OF e c]
  obtain R where R: "scale_eigen eig_sym_square B 4 = Some R" "\<forall>r<4. elem R r 3 = NaN"
    by auto
  then have "elem R 0 3 = NaN" "elem R 1 3 = NaN" "elem R 2 3 = NaN" "elem R 3 3 = NaN"
    by simp_all
  with B R(1) have first: "\<exists>B R. double_centre dist_square 4 = Some B
        \<and> scale_eigen eig_sym_square B 4 = Some R
        \<and> elem R 0 3 = NaN \<and> elem R 1 3 = NaN \<and> elem R 2 3 = NaN \<and> elem R 3 3 = NaN"
    by blast
  have "\<exists>D. dissimiliarityMatrix garbage_example (\<lambda>_ _. True) (column [0, 1, 2]) 1 = Inr D
          \<and> square_of 3 D"
    by (simp add: dist_ev square_of_def)
  then obtain D
    where D: "dissimiliarityMatrix garbage_example (\<lambda>_ _. True) (column [0, 1, 2]) 1 = Inr D"
      and sq: "square_of 3 D"
    by blast
  from double_centre_value [OF sq]
  obtain B' where B': "double_centre D 3 = Some B'" by blast
  have e': "eig_shape 3 (eig_sym_rounded B')"
    "\<exists>v<0. elem (fst (eig_sym_rounded B')) 0 0 = Fin v"
    by (simp_all add: eig_shape_def square_of_def eig_sym_rounded_def eig_sym_example_def)
  have c': "(0::nat) < 3" "(1::int) \<le> 3" "(3::int) \<le> int 3" "(3::nat) - 1 - 0 < nat 3"
    by simp_all
  have n: "n_rows (column [0, 1, 2]) = 3" by (simp add: column_def)
  from metricMDS_negative_eigenvalue [where eig_sym = eig_sym_rounded and B = B', OF e' c']
  obtain R' where col: "\<forall>r<3. elem R' r 2 = NaN"
    and m: "\<forall>garbage in_time M threads D.
       n_rows M = 3 \<and> dissimiliarityMatrix garbage in_time M threads = Inr D
       \<and> double_centre D 3 = Some B'
       \<longrightarrow> metricMDS eig_sym_rounded garbage in_time M 3 threads = Inr R'"
    by auto
  from m n D B'
  have "metricMDS eig_sym_rounded garbage_example (\<lambda>_ _. True) (column [0, 1, 2]) 3 1 = Inr R'"
    by blast
  moreover from col have "elem R' 0 2 = NaN" "elem R' 1 2 = NaN" "elem R' 2 2 = NaN"
    by simp_all
  ultimately have "\<exists>R. metricMDS eig_sym_rounded garbage_example (\<lambda>_ _. True)
        (column [0, 1, 2]) 3 1 = Inr R
        \<and> elem R 0 2 = NaN \<and> elem R 1 2 = NaN \<and> elem R 2 2 = NaN"
    by blast
  with first show ?thesis by blast
qed

section \<open>The logistic fit: the cascade and its starting points\<close>

lemmas dbl_ev = sum_upto_numeral sum_upto_one sum_upto_Suc0 zero_dbl_def one_dbl_def minus_dbl_def

lemmas mat_ev = predictLogitProbs_def mmul_def msub_def madd_def schur_def zip_elem_def
  same_size_def map_elem_def trans_mat_def diagmat_def ones_def zeros_def fill_def put_def
  elem_at_def vat_def one_minus_def n_elem_def accu_def mean_def weighted_gram_def

lemma det_fn_numeral:
  "det_fn (numeral k) f =
     (\<Sum>j<numeral k. (if even j then f 0 j else - f 0 j)
        * det_fn (pred_numeral k) (\<lambda>r c. f (Suc r) (if c < j then c else Suc c)))"
  by (simp add: numeral_eq_Suc)

lemma det_fn_one:
  "det_fn 1 f = f 0 0 * Fin 1"
  by simp

lemmas inv_ev = inv_adj_def cofactor_def det_fn_numeral det_fn_one

lemma nr_loop_numeral:
  "nr_loop E y X f (numeral n) st =
     (case nr_body E y X f st of
        None \<Rightarrow> None
      | Some (st', stop) \<Rightarrow> if stop then Some st' else nr_loop E y X f (pred_numeral n) st')"
  by (simp add: numeral_eq_Suc)

lemmas nr_ev = newtonRaphson.simps nr_loop_numeral nr_start_def start_intercept_def nr_body_def
  nr_update_def firth_update_def write_fit_def normalPval_def add_comment_def Let_def

lemmas data_ev = column_def with_intercept_def y_sep_def x_sep_def y_four_def x_four_def
  x_cov_def kmer_example_def ext_example_def ext_bfgs_def

lemma join_intercept: "join_rows (ones (n_rows X) 1) X = Some (with_intercept X)"
  by (simp add: join_rows_def ones_def fill_def with_intercept_def cong: if_cong)

lemma doLogit_unfold:
  "doLogit E k y X =
     (case bfgs_fit E k y X (with_intercept X) (doLogit_start y (n_cols (with_intercept X))) of
        Returned k' \<Rightarrow> Returned k'
      | Thrown k' \<Rightarrow> newtonRaphson E (add_comment ''bfgs-fail'' k') y (with_intercept X) False)"
  unfolding doLogit_def join_intercept by simp

lemma nr_sep_one_pass:
  "newtonRaphson (ext_example\<lparr>max_nr_iterations := 1\<rparr>) k y_sep (with_intercept x_sep) False
     = Returned (k\<lparr>beta := Fin 4, standard_error := Fin (sqrt 8),
                   p_val := Fin 2 * (Fin 1 - Phi (Fin (4 / sqrt 8)))\<rparr>)"
  by (simp add: nr_ev mat_ev inv_ev data_ev dbl_ev)

lemma nr_four_two_passes:
  "newtonRaphson (ext_example\<lparr>max_nr_iterations := 2\<rparr>) k y_four (with_intercept x_four) False
     = Thrown (add_comment ''nr-fail'' k)"
  by (simp add: nr_ev mat_ev inv_ev data_ev dbl_ev)

lemma bfgs_fit_throws: "find_max E x_train y sp = None \<Longrightarrow> bfgs_fit E k y x_train X sp = Thrown k"
  by (simp add: bfgs_fit_def)

lemma nr_trace_sep:
  "nr_trace (ext_example\<lparr>max_nr_iterations := 1\<rparr>) y_sep (with_intercept x_sep) False
     = Some [Some (Fin 0), Some (Fin 4)]"
  by (simp add: nr_trace_def nr_ev mat_ev inv_ev data_ev dbl_ev)

lemma nr_trace_four:
  "nr_trace (ext_example\<lparr>max_nr_iterations := 2\<rparr>) y_four (with_intercept x_four) False
     = Some [Some (Fin 0), Some (Fin 0)]"
  by (simp add: nr_trace_def nr_ev mat_ev inv_ev data_ev dbl_ev)

lemma firth_update_shape:
  "n_cols y_pred \<noteq> n_rows y_pred \<Longrightarrow>
   firth_update E y_train x_design y_pred var_covar_mat b1 = None"
  by (simp add: firth_update_def mmul_def one_minus_def map_elem_def)

lemma predictLogitProbs_shape:
  "predictLogitProbs X b = Some p \<Longrightarrow> n_rows p = n_rows X \<and> n_cols p = n_cols b"
  by (auto simp: predictLogitProbs_def mmul_def map_elem_def split: if_splits)

lemma nr_start_shape:
  "nr_start y n = Some s \<Longrightarrow> n_rows s = n \<and> n_cols s = 1"
  by (auto simp: nr_start_def put_def zeros_def fill_def split: if_splits)

lemma nr_body_firth_throws:
  assumes "n_cols (last (fst st)) = 1" "n_rows x_design \<noteq> 1"
  shows "nr_body E y_train x_design True st = None"
proof (cases "predictLogitProbs x_design (last (fst st))")
  case None
  then show ?thesis by (simp add: nr_body_def)
next
  case (Some p)
  from predictLogitProbs_shape [OF Some] assms
  have "firth_update E y_train x_design p V (last (fst st)) = None" for V
    by (intro firth_update_shape) simp
  with Some show ?thesis
    by (simp add: nr_body_def split: Option.bind_split)
qed

lemma firth_stage_throws:
  assumes "n_rows x_design \<noteq> 1"
  shows "newtonRaphson E k y_train x_design True = Thrown k
       \<or> (\<exists>b. newtonRaphson E k y_train x_design True = Thrown (k\<lparr>beta := b\<rparr>))"
proof (cases "nr_start y_train (n_cols x_design)")
  case None
  then show ?thesis by (simp add: newtonRaphson.simps)
next
  case (Some s)
  let ?V = "\<lparr>n_rows = 0, n_cols = 0, elem = uninit E\<rparr>"
  show ?thesis
  proof (cases "max_nr_iterations E")
    case 0
    then show ?thesis
      by (auto simp: newtonRaphson.simps Some write_fit_def elem_at_def split: option.splits)
  next
    case (Suc m)
    have "nr_body E y_train x_design True ([s], ?V) = None"
      by (rule nr_body_firth_throws) (use nr_start_shape [OF Some] assms in simp_all)
    then show ?thesis
      by (simp add: newtonRaphson.simps Some Suc)
  qed
qed

lemma firth_stage_throws_pos:
  assumes "n_rows x_design \<noteq> 1" "0 < max_nr_iterations E"
  shows "newtonRaphson E k y_train x_design True = Thrown k"
proof (cases "nr_start y_train (n_cols x_design)")
  case None
  then show ?thesis by (simp add: newtonRaphson.simps)
next
  case (Some s)
  from assms(2) obtain m where m: "max_nr_iterations E = Suc m"
    by (cases "max_nr_iterations E") auto
  have "nr_body E y_train x_design True ([s], \<lparr>n_rows = 0, n_cols = 0, elem = uninit E\<rparr>) = None"
    by (rule nr_body_firth_throws) (use nr_start_shape [OF Some] assms in simp_all)
  then show ?thesis
    by (simp add: newtonRaphson.simps Some m)
qed

text \<open>
  C1: the test after the loop compares the number of stored iterates, which counts the
  starting point, with the iteration cap. With a cap of 1 and a change of 4 in
  coefficient 1 the fit is written and no tag added; with a cap of 2 and a change of
  0 at the first pass the tag "nr-fail" is added and the Firth stage entered.
\<close>

theorem newtonRaphson_tag_off_by_one:
  "nr_trace (ext_example\<lparr>max_nr_iterations := 1\<rparr>) y_sep (with_intercept x_sep) False
     = Some [Some (Fin 0), Some (Fin 4)]
   \<and> \<not> \<bar>Fin 4 - Fin 0\<bar> < convergence_limit (ext_example\<lparr>max_nr_iterations := 1\<rparr>)
   \<and> newtonRaphson (ext_example\<lparr>max_nr_iterations := 1\<rparr>) (kmer_example x_sep) y_sep
        (with_intercept x_sep) False
      = Returned ((kmer_example x_sep)
          \<lparr>beta := Fin 4, standard_error := Fin (sqrt 8),
           p_val := Fin 2 * (Fin 1 - Phi (Fin (4 / sqrt 8)))\<rparr>)
   \<and> nr_trace (ext_example\<lparr>max_nr_iterations := 2\<rparr>) y_four (with_intercept x_four) False
     = Some [Some (Fin 0), Some (Fin 0)]
   \<and> \<bar>Fin 0 - Fin 0\<bar> < convergence_limit (ext_example\<lparr>max_nr_iterations := 2\<rparr>)
   \<and> newtonRaphson (ext_example\<lparr>max_nr_iterations := 2\<rparr>) (kmer_example x_four) y_four
        (with_intercept x_four) False
      = Thrown ((kmer_example x_four)\<lparr>comments := [''nr-fail'']\<rparr>)"
proof (intro conjI)
  show "\<not> \<bar>Fin 4 - Fin 0\<bar> < convergence_limit (ext_example\<lparr>max_nr_iterations := 1\<rparr>)"
    by (simp add: ext_example_def minus_dbl_def)
  show "\<bar>Fin 0 - Fin 0\<bar> < convergence_limit (ext_example\<lparr>max_nr_iterations := 2\<rparr>)"
    by (simp add: ext_example_def minus_dbl_def)
  show "newtonRaphson (ext_example\<lparr>max_nr_iterations := 2\<rparr>) (kmer_example x_four) y_four
        (with_intercept x_four) False
      = Thrown ((kmer_example x_four)\<lparr>comments := [''nr-fail'']\<rparr>)"
    unfolding nr_four_two_passes by (simp add: add_comment_def kmer_example_def)
qed (rule nr_trace_sep nr_sep_one_pass nr_trace_four)+

text \<open>
  C2: the Firth branch multiplies the column of probabilities by the column of their
  complements as matrices and leaves out the transposed design matrix: on four
  samples the update throws, and so does the stage, where the plain update succeeds.
\<close>

theorem firth_update_throws:
  "firth_update ext_example y_four (with_intercept x_four)
     (column [1 / 2, 1 / 2, 1 / 2, 1 / 2]) (zeros 2 2) (zeros 2 1) = None
   \<and> nr_update y_four (with_intercept x_four)
        (column [1 / 2, 1 / 2, 1 / 2, 1 / 2]) (zeros 2 2) (zeros 2 1) \<noteq> None
   \<and> newtonRaphson ext_example (kmer_example x_four) y_four (with_intercept x_four) True
      = Thrown (kmer_example x_four)"
proof -
  have "newtonRaphson ext_example k y_four (with_intercept x_four) True = Thrown k" for k
    by (rule firth_stage_throws_pos) (simp_all add: ext_example_def with_intercept_def x_four_def column_def)
  moreover have "firth_update ext_example y_four (with_intercept x_four)
     (column [1 / 2, 1 / 2, 1 / 2, 1 / 2]) (zeros 2 2) (zeros 2 1) = None"
    by (rule firth_update_shape) (simp add: column_def)
  moreover have "nr_update y_four (with_intercept x_four)
        (column [1 / 2, 1 / 2, 1 / 2, 1 / 2]) (zeros 2 2) (zeros 2 1) \<noteq> None"
    by (simp add: nr_update_def mat_ev data_ev)
  ultimately show ?thesis by simp
qed

text \<open>
  C7: with an optimiser that throws and a cap of 2, the Newton-Raphson stage meets
  its threshold at the first pass (coefficient 1 stays 0), yet "nr-fail" is appended
  and the Firth stage is entered, which throws: the call ends with the tags
  "bfgs-fail" and "nr-fail" and an exception instead of a result or "firth-fail".
\<close>

theorem doLogit_cascade_example:
  "nr_trace (ext_example\<lparr>max_nr_iterations := 2\<rparr>) y_four (with_intercept x_four) False
     = Some [Some (Fin 0), Some (Fin 0)]
   \<and> doLogit (ext_example\<lparr>max_nr_iterations := 2\<rparr>) (kmer_example x_four) y_four x_four
      = Thrown ((kmer_example x_four)\<lparr>comments := [''bfgs-fail'', ''nr-fail'']\<rparr>)"
proof -
  have "bfgs_fit (ext_example\<lparr>max_nr_iterations := 2\<rparr>) k y_four x_four X sp = Thrown k"
    for k X sp
    by (rule bfgs_fit_throws) (simp add: ext_example_def)
  then have "doLogit (ext_example\<lparr>max_nr_iterations := 2\<rparr>) (kmer_example x_four) y_four x_four
      = Thrown ((kmer_example x_four)\<lparr>comments := [''bfgs-fail'', ''nr-fail'']\<rparr>)"
    unfolding doLogit_unfold
    by (simp add: nr_four_two_passes add_comment_def kmer_example_def)
  with nr_trace_four show ?thesis by simp
qed

lemma mean_const:
  assumes "n_cols y = 1" "0 < n_rows y" "\<forall>i<n_rows y. elem y i 0 = Fin c"
  shows "mean y = Fin c"
proof -
  have "accu y = (\<Sum>i<n_rows y. Fin c)"
    unfolding accu_def using assms by (intro sum.cong) simp_all
  also have "\<dots> = Fin (\<Sum>i<n_rows y. c)" by (simp add: sum_Fin)
  finally have "accu y = Fin (real (n_rows y) * c)" by simp
  with assms(1,2) show ?thesis by (simp add: mean_def n_elem_def)
qed

lemma start_intercept_finite_iff:
  "finite_dbl (start_intercept y) \<longleftrightarrow> (\<exists>m. mean y = Fin m \<and> 0 < m \<and> m < 1)"
proof (cases "mean y")
  case (Fin m)
  show ?thesis
  proof (cases "m = 1")
    case True
    with Fin show ?thesis
      by (simp add: start_intercept_def minus_dbl_def finite_dbl_def)
  next
    case False
    then have "0 < m / (1 - m) \<longleftrightarrow> 0 < m \<and> m < 1"
      by (auto simp: zero_less_divide_iff)
    with Fin False show ?thesis
      by (simp add: start_intercept_def minus_dbl_def finite_dbl_def)
  qed
qed (simp_all add: start_intercept_def minus_dbl_def finite_dbl_def)

lemma nr_start_record:
  assumes "0 < n"
  shows "nr_start y n =
     Some \<lparr>n_rows = n, n_cols = 1,
           elem = (\<lambda>i j. if i = 0 \<and> j = 0 then start_intercept y else Fin 0)\<rparr>"
  using assms by (simp add: nr_start_def put_def zeros_def fill_def zero_dbl_def fun_eq_iff)

lemma doLogit_start_record:
  "doLogit_start y n =
     \<lparr>n_rows = n, n_cols = 1, elem = (\<lambda>i _. if i = 0 then start_intercept y else Fin 1)\<rparr>"
  by (simp add: doLogit_start_def)

lemma doLogit_from_start:
  "doLogit E k y X =
     (case bfgs_fit E k y X (with_intercept X)
             \<lparr>n_rows = Suc (n_cols X), n_cols = 1,
              elem = (\<lambda>i _. if i = 0 then start_intercept y else Fin 1)\<rparr> of
        Returned k' \<Rightarrow> Returned k'
      | Thrown k' \<Rightarrow> newtonRaphson E (add_comment ''bfgs-fail'' k') y (with_intercept X) False)"
proof -
  have "n_cols (with_intercept X) = Suc (n_cols X)"
    by (simp add: with_intercept_def)
  then show ?thesis
    unfolding doLogit_unfold [of E k y X] doLogit_start_record by simp
qed

lemma doLogit_bfgs_fail:
  assumes "find_max E X y
             \<lparr>n_rows = Suc (n_cols X), n_cols = 1,
              elem = (\<lambda>i _. if i = 0 then start_intercept y else Fin 1)\<rparr> = None"
  shows "doLogit E k y X = newtonRaphson E (add_comment ''bfgs-fail'' k) y (with_intercept X) False"
  unfolding doLogit_from_start [of E k y X] bfgs_fit_throws [OF assms] by simp

lemma newtonRaphson_from_start:
  assumes "0 < n_cols X"
  shows "newtonRaphson E k y X firth =
     (case nr_loop E y X firth (max_nr_iterations E)
             ([\<lparr>n_rows = n_cols X, n_cols = 1,
                elem = (\<lambda>i j. if i = 0 \<and> j = 0 then start_intercept y else Fin 0)\<rparr>],
              \<lparr>n_rows = 0, n_cols = 0, elem = uninit E\<rparr>) of
        None \<Rightarrow> Thrown k
      | Some st \<Rightarrow>
          if length (fst st) = max_nr_iterations E then
            (if \<not> firth
             then newtonRaphson E (add_comment ''nr-fail'' k) y X True
             else Returned (add_comment ''firth-fail'' k))
          else write_fit E k st)"
  by (subst newtonRaphson.simps) (simp add: nr_start_record [OF assms])

lemma start_intercept_value:
  assumes "mean y = Fin m" and "0 < m" and "m < 1"
  shows "start_intercept y = Fin (ln (m / (1 - m)))"
proof -
  from assms have "0 < m / (1 - m)" by simp
  with assms show ?thesis
    by (simp add: start_intercept_def minus_dbl_def)
qed

text \<open>
  C8: let the mean \<open>m\<close> of the response be strictly between 0 and 1. The outcome of
  \<open>doLogit\<close> is that of the gradient stage run from the vector that holds
  \<open>ln (m / (1 - m))\<close> at index 0 and 1 at every other index, followed by the
  Newton-Raphson stage when the gradient stage throws, as it does when the optimiser
  fails at that vector. The outcome of \<open>newtonRaphson\<close>, with \<open>firth\<close> set (the Firth
  stage) or not (the Newton-Raphson stage), is decided by the state in which its loop
  ends when it is entered with one stored iterate: the vector that holds
  \<open>ln (m / (1 - m))\<close> at index 0 and 0 at every other index.
\<close>

theorem starting_points:
  assumes "mean y_train = Fin m" and "0 < m" and "m < 1"
  shows "doLogit E k y_train x_train =
           (case bfgs_fit E k y_train x_train (with_intercept x_train)
                   \<lparr>n_rows = Suc (n_cols x_train), n_cols = 1,
                    elem = (\<lambda>i _. if i = 0 then Fin (ln (m / (1 - m))) else Fin 1)\<rparr> of
              Returned k' \<Rightarrow> Returned k'
            | Thrown k' \<Rightarrow>
                newtonRaphson E (add_comment ''bfgs-fail'' k') y_train
                  (with_intercept x_train) False)
       \<and> (find_max E x_train y_train
             \<lparr>n_rows = Suc (n_cols x_train), n_cols = 1,
              elem = (\<lambda>i _. if i = 0 then Fin (ln (m / (1 - m))) else Fin 1)\<rparr> = None
           \<longrightarrow> doLogit E k y_train x_train =
                 newtonRaphson E (add_comment ''bfgs-fail'' k) y_train
                   (with_intercept x_train) False)
       \<and> (0 < n_cols x_design \<longrightarrow>
            newtonRaphson E k y_train x_design firth =
              (case nr_loop E y_train x_design firth (max_nr_iterations E)
                      ([\<lparr>n_rows = n_cols x_design, n_cols = 1,
                         elem = (\<lambda>i j. if i = 0 \<and> j = 0 then Fin (ln (m / (1 - m)))
                                        else Fin 0)\<rparr>],
                       \<lparr>n_rows = 0, n_cols = 0, elem = uninit E\<rparr>) of
                 None \<Rightarrow> Thrown k
               | Some st \<Rightarrow>
                   if length (fst st) = max_nr_iterations E then
                     (if \<not> firth
                      then newtonRaphson E (add_comment ''nr-fail'' k) y_train x_design True
                      else Returned (add_comment ''firth-fail'' k))
                   else write_fit E k st))"
  unfolding start_intercept_value [OF assms, symmetric]
  by (intro conjI impI, rule doLogit_from_start, erule doLogit_bfgs_fail,
      erule newtonRaphson_from_start)

theorem starting_points_witness:
  "mean (column [0, 1, 1, 1]) = Fin (3 / 4)
   \<and> ln ((3 / 4) / (1 - 3 / 4)) = ln (3 :: real)
   \<and> 0 < n_cols (with_intercept x_four)
   \<and> doLogit ext_example (kmer_example x_four) (column [0, 1, 1, 1]) x_four =
       newtonRaphson ext_example (add_comment ''bfgs-fail'' (kmer_example x_four))
         (column [0, 1, 1, 1]) (with_intercept x_four) False
   \<and> newtonRaphson ext_example (kmer_example x_four) (column [0, 1, 1, 1])
       (with_intercept x_four) False =
       (case nr_loop ext_example (column [0, 1, 1, 1]) (with_intercept x_four) False
               (max_nr_iterations ext_example)
               ([\<lparr>n_rows = n_cols (with_intercept x_four), n_cols = 1,
                  elem = (\<lambda>i j. if i = 0 \<and> j = 0 then Fin (ln ((3 / 4) / (1 - 3 / 4)))
                                 else Fin 0)\<rparr>],
                \<lparr>n_rows = 0, n_cols = 0, elem = uninit ext_example\<rparr>) of
          None \<Rightarrow> Thrown (kmer_example x_four)
        | Some st \<Rightarrow>
            if length (fst st) = max_nr_iterations ext_example then
              (if \<not> False
               then newtonRaphson ext_example (add_comment ''nr-fail'' (kmer_example x_four))
                      (column [0, 1, 1, 1]) (with_intercept x_four) True
               else Returned (add_comment ''firth-fail'' (kmer_example x_four)))
            else write_fit ext_example (kmer_example x_four) st)"
proof -
  have m: "mean (column [0, 1, 1, 1]) = Fin (3 / 4)"
    by (simp add: mat_ev data_ev dbl_ev)
  have h: "(0::real) < 3 / 4" "(3::real) / 4 < 1" by simp_all
  have l: "ln ((3 / 4) / (1 - 3 / 4)) = ln (3 :: real)" by simp
  have c: "0 < n_cols (with_intercept x_four)" by (simp add: data_ev)
  have f: "find_max ext_example x_four (column [0, 1, 1, 1]) s = None" for s
    by (simp add: ext_example_def)
  note sp = starting_points [OF m h, where E = ext_example and k = "kmer_example x_four"
      and x_train = x_four and x_design = "with_intercept x_four" and firth = False]
  note g = sp [THEN conjunct2, THEN conjunct1, THEN mp, OF f]
  note n = sp [THEN conjunct2, THEN conjunct2, THEN mp, OF c]
  show ?thesis
    by (intro conjI, rule m, rule l, rule c, rule g, rule n)
qed

text \<open>
  C10: for a response that is all 0 the starting intercept is \<open>-\<infinity>\<close>, for one that is
  all 1 it is \<open>+\<infinity>\<close>, and it is finite exactly when the mean of the response is
  strictly between 0 and 1. It is the value at index 0 of the vector from which
  \<open>doLogit\<close> runs the gradient stage, and of the one iterate with which
  \<open>newtonRaphson\<close> enters its loop, in the Newton-Raphson stage and in the Firth
  stage.
\<close>

theorem start_intercept_degenerate:
  assumes "n_cols y_train = 1" and "0 < n_rows y_train"
  shows "((\<forall>i<n_rows y_train. elem y_train i 0 = Fin 0) \<longrightarrow>
            mean y_train = Fin 0 \<and> start_intercept y_train = MInf)
       \<and> ((\<forall>i<n_rows y_train. elem y_train i 0 = Fin 1) \<longrightarrow>
            mean y_train = Fin 1 \<and> start_intercept y_train = PInf)
       \<and> (finite_dbl (start_intercept y_train)
            \<longleftrightarrow> (\<exists>m. mean y_train = Fin m \<and> 0 < m \<and> m < 1))
       \<and> doLogit E k y_train x_train =
           (case bfgs_fit E k y_train x_train (with_intercept x_train)
                   \<lparr>n_rows = Suc (n_cols x_train), n_cols = 1,
                    elem = (\<lambda>i _. if i = 0 then start_intercept y_train else Fin 1)\<rparr> of
              Returned k' \<Rightarrow> Returned k'
            | Thrown k' \<Rightarrow>
                newtonRaphson E (add_comment ''bfgs-fail'' k') y_train
                  (with_intercept x_train) False)
       \<and> (0 < n_cols x_design \<longrightarrow>
            newtonRaphson E k y_train x_design firth =
              (case nr_loop E y_train x_design firth (max_nr_iterations E)
                      ([\<lparr>n_rows = n_cols x_design, n_cols = 1,
                         elem = (\<lambda>i j. if i = 0 \<and> j = 0 then start_intercept y_train
                                        else Fin 0)\<rparr>],
                       \<lparr>n_rows = 0, n_cols = 0, elem = uninit E\<rparr>) of
                 None \<Rightarrow> Thrown k
               | Some st \<Rightarrow>
                   if length (fst st) = max_nr_iterations E then
                     (if \<not> firth
                      then newtonRaphson E (add_comment ''nr-fail'' k) y_train x_design True
                      else Returned (add_comment ''firth-fail'' k))
                   else write_fit E k st))"
proof (intro conjI impI)
  show "mean y_train = Fin 0" "start_intercept y_train = MInf"
    if "\<forall>i<n_rows y_train. elem y_train i 0 = Fin 0"
    using mean_const [OF assms that] by (simp_all add: start_intercept_def minus_dbl_def)
  show "mean y_train = Fin 1" "start_intercept y_train = PInf"
    if "\<forall>i<n_rows y_train. elem y_train i 0 = Fin 1"
    using mean_const [OF assms that] by (simp_all add: start_intercept_def minus_dbl_def)
  show "finite_dbl (start_intercept y_train) \<longleftrightarrow> (\<exists>m. mean y_train = Fin m \<and> 0 < m \<and> m < 1)"
    by (rule start_intercept_finite_iff)
qed (rule doLogit_from_start, erule newtonRaphson_from_start)

theorem start_intercept_degenerate_witness:
  "n_cols (column [0, 0]) = 1 \<and> 0 < n_rows (column [0, 0])
   \<and> elem (column [0, 0]) 0 0 = Fin 0 \<and> elem (column [0, 0]) 1 0 = Fin 0
   \<and> start_intercept (column [0, 0]) = MInf
   \<and> \<not> finite_dbl (start_intercept (column [0, 0]))
   \<and> elem (column [1, 1]) 0 0 = Fin 1 \<and> elem (column [1, 1]) 1 0 = Fin 1
   \<and> start_intercept (column [1, 1]) = PInf
   \<and> \<not> finite_dbl (start_intercept (column [1, 1]))
   \<and> 0 < n_cols (with_intercept x_sep)
   \<and> newtonRaphson ext_example (kmer_example x_sep) (column [1, 1]) (with_intercept x_sep) True =
       (case nr_loop ext_example (column [1, 1]) (with_intercept x_sep) True
               (max_nr_iterations ext_example)
               ([\<lparr>n_rows = n_cols (with_intercept x_sep), n_cols = 1,
                  elem = (\<lambda>i j. if i = 0 \<and> j = 0 then start_intercept (column [1, 1])
                                 else Fin 0)\<rparr>],
                \<lparr>n_rows = 0, n_cols = 0, elem = uninit ext_example\<rparr>) of
          None \<Rightarrow> Thrown (kmer_example x_sep)
        | Some st \<Rightarrow>
            if length (fst st) = max_nr_iterations ext_example then
              (if \<not> True
               then newtonRaphson ext_example (add_comment ''nr-fail'' (kmer_example x_sep))
                      (column [1, 1]) (with_intercept x_sep) True
               else Returned (add_comment ''firth-fail'' (kmer_example x_sep)))
            else write_fit ext_example (kmer_example x_sep) st)"
proof -
  have a: "n_cols (column [0, 0]) = 1" "0 < n_rows (column [0, 0])"
    "\<forall>i<n_rows (column [0, 0]). elem (column [0, 0]) i 0 = Fin 0"
    by (simp_all add: column_def less_Suc_eq)
  have b: "n_cols (column [1, 1]) = 1" "0 < n_rows (column [1, 1])"
    "\<forall>i<n_rows (column [1, 1]). elem (column [1, 1]) i 0 = Fin 1"
    by (simp_all add: column_def less_Suc_eq)
  have ea: "elem (column [0, 0]) 0 0 = Fin 0" "elem (column [0, 0]) 1 0 = Fin 0"
    and eb: "elem (column [1, 1]) 0 0 = Fin 1" "elem (column [1, 1]) 1 0 = Fin 1"
    by (simp_all add: column_def)
  have c: "0 < n_cols (with_intercept x_sep)" by (simp add: data_ev)
  note za = start_intercept_degenerate [OF a(1,2), where E = ext_example
      and k = "kmer_example x_sep" and x_train = x_sep
      and x_design = "with_intercept x_sep" and firth = True]
  note ob = start_intercept_degenerate [OF b(1,2), where E = ext_example
      and k = "kmer_example x_sep" and x_train = x_sep
      and x_design = "with_intercept x_sep" and firth = True]
  note mi = za [THEN conjunct1, THEN mp, OF a(3), THEN conjunct2]
  note pl = ob [THEN conjunct2, THEN conjunct1, THEN mp, OF b(3), THEN conjunct2]
  note n = ob [THEN conjunct2, THEN conjunct2, THEN conjunct2, THEN conjunct2, THEN mp, OF c]
  have fm: "\<not> finite_dbl (start_intercept (column [0, 0]))"
    unfolding mi by (simp add: finite_dbl_def)
  have fp: "\<not> finite_dbl (start_intercept (column [1, 1]))"
    unfolding pl by (simp add: finite_dbl_def)
  show ?thesis
    by (intro conjI, rule a(1), rule a(2), rule ea(1), rule ea(2), rule mi, rule fm,
        rule eb(1), rule eb(2), rule pl, rule fp, rule c, rule n)
qed

section \<open>The logistic fit: the reported results\<close>

lemma times_dbl_assoc: "a * b * c = a * (b * (c :: dbl))"
  by (cases a; cases b; cases c)
     (auto simp: zero_less_mult_iff mult_less_0_iff mult_le_0_iff zero_le_mult_iff not_less)

lemma weighted_gram_raw:
  assumes "n_cols p = 1" "n_rows p = n_rows X"
  shows "\<exists>J. weighted_gram X p = Some J \<and> square_of (n_cols X) J
           \<and> (\<forall>i j. elem J i j =
                 (\<Sum>r<n_rows X.
                     (\<Sum>s<n_rows X. elem X s i
                         * (if s = r then elem p s 0 * (1 - elem p s 0) else 0))
                     * elem X r j))"
  using assms
  by (simp add: weighted_gram_def msub_def schur_def zip_elem_def same_size_def ones_def fill_def
      mmul_def trans_mat_def diagmat_def square_of_def cong: if_cong)

lemma weighted_gram_value:
  assumes "n_cols p = 1" "n_rows p = n_rows X" "finite_mat X"
  shows "\<exists>J. weighted_gram X p = Some J \<and> square_of (n_cols X) J
           \<and> (\<forall>i<n_cols X. \<forall>j. elem J i j =
                 (\<Sum>r<n_rows X. elem X r i * (elem p r 0 * (1 - elem p r 0)) * elem X r j))"
proof -
  from weighted_gram_raw [OF assms(1,2)]
  obtain J where J: "weighted_gram X p = Some J" "square_of (n_cols X) J"
    and raw: "\<And>i j. elem J i j =
                 (\<Sum>r<n_rows X.
                     (\<Sum>s<n_rows X. elem X s i
                         * (if s = r then elem p s 0 * (1 - elem p s 0) else 0))
                     * elem X r j)"
    by blast
  have "elem J i j = (\<Sum>r<n_rows X. elem X r i * (elem p r 0 * (1 - elem p r 0)) * elem X r j)"
    if "i < n_cols X" for i j
  proof -
    have fin: "finite_dbl (elem X s i)" if "s < n_rows X" for s
      using assms(3) that \<open>i < n_cols X\<close> by (simp add: finite_mat_def)
    have "(\<Sum>s<n_rows X. elem X s i * (if s = r then elem p s 0 * (1 - elem p s 0) else 0))
        = elem X r i * (elem p r 0 * (1 - elem p r 0))"
      if "r < n_rows X" for r
      by (rule sum_pick [OF that fin])
    then show ?thesis
      unfolding raw by (intro sum.cong) simp_all
  qed
  with J show ?thesis by blast
qed

lemma info_cell_step:
  assumes "n_cols yt = 1" "n_rows yt = n_rows X" "square_of (n_cols X) B" "i \<le> j" "j < n_cols X"
  shows "info_cell X yt i j B = Some (tri_step (info_entry X yt) i j B)"
proof -
  have "accu \<lparr>n_rows = n_rows X, n_cols = Suc 0,
               elem = \<lambda>r c. elem yt r c * elem X r a * elem X r b\<rparr> = info_entry X yt a b"
    for a b
    by (simp add: accu_def info_entry_def assms(2))
  with assms show ?thesis
    by (simp add: info_cell_def col_at_def col_vec_def schur_def zip_elem_def same_size_def
        put_upd elem_at_def tri_step_def square_of_def)
qed

lemma info_loops_value:
  assumes "n_cols yt = 1" "n_rows yt = n_rows X" "square_of (n_cols X) I0"
  shows "\<exists>I. info_loops X yt I0 = Some I \<and> square_of (n_cols X) I
           \<and> (\<forall>r<n_cols X. \<forall>c<n_cols X. elem I r c = info_entry X yt (min r c) (max r c))"
proof -
  from tri_fill [of "n_cols X" I0 "info_cell X yt" "info_entry X yt", OF assms(3)]
    info_cell_step [OF assms(1,2)]
  obtain I where "foldM (\<lambda>i. foldM (info_cell X yt i) [i..<n_cols X]) [0..<n_cols X] I0 = Some I"
    "square_of (n_cols X) I"
    "\<forall>r<n_cols X. \<forall>c<n_cols X. elem I r c = info_entry X yt (min r c) (max r c)"
    by blast
  with assms(3) show ?thesis
    by (auto simp: info_loops_def square_of_def)
qed

lemma sigmoid_bounds: "0 < sigmoid t" "sigmoid t < 1"
proof -
  have "0 < exp (- t)" by simp
  then show "0 < sigmoid t" "sigmoid t < 1"
    by (simp_all add: sigmoid_def add_pos_pos)
qed

lemma sigmoid_minus: "sigmoid (- t) = 1 - sigmoid t"
proof -
  define a where "a = exp (- t)"
  have a: "0 < a" "0 < 1 + a" by (simp_all add: a_def add_pos_pos)
  have "exp t = 1 / a" by (simp add: a_def exp_minus divide_inverse)
  moreover have "1 / (1 + 1 / a) = 1 - 1 / (1 + a)"
    using a by (simp add: field_simps)
  ultimately show ?thesis by (simp add: sigmoid_def a_def)
qed

lemma logit_weight_minus: "logit_weight (- t) = logit_weight t"
  by (simp add: logit_weight_def sigmoid_minus)

lemma logit_weight_pos: "0 < logit_weight t"
  using sigmoid_bounds [of t] by (simp add: logit_weight_def)

lemma logit_weight_quarter: "logit_weight t = 1 / 4 \<longleftrightarrow> t = 0"
proof -
  have id: "(sigmoid t - 1 / 2)\<^sup>2 = 1 / 4 - logit_weight t"
    by (simp add: logit_weight_def power2_eq_square algebra_simps)
  have "logit_weight t = 1 / 4 \<longleftrightarrow> (sigmoid t - 1 / 2)\<^sup>2 = 0"
    unfolding id by auto
  also have "\<dots> \<longleftrightarrow> sigmoid t = 1 / 2" by simp
  also have "\<dots> \<longleftrightarrow> 1 + exp (- t) = 2"
  proof -
    have "0 < 1 + exp (- t)" by (simp add: add_pos_pos)
    then show ?thesis by (auto simp: sigmoid_def field_simps)
  qed
  also have "\<dots> \<longleftrightarrow> t = 0" by auto
  finally show ?thesis .
qed

lemma sigmoid_dbl: "Fin 1 / (Fin 1 + dexp (- Fin t)) = Fin (sigmoid t)"
proof -
  have "1 + exp (- t) \<noteq> 0" using exp_gt_zero [of "- t"] by linarith
  then show ?thesis by (simp add: sigmoid_def)
qed

lemma logit_weight_dbl:
  "Fin (sigmoid t) * (1 - Fin (sigmoid t)) = Fin (logit_weight t)"
  by (simp add: logit_weight_def one_dbl_def minus_dbl_def)

lemma det_fn_cong:
  "(\<And>i j. i < n \<Longrightarrow> j < n \<Longrightarrow> f i j = g i j) \<Longrightarrow> det_fn n f = det_fn n g"
proof (induction n arbitrary: f g)
  case 0
  show ?case by simp
next
  case (Suc n)
  have "det_fn n (\<lambda>r c. f (Suc r) (if c < j then c else Suc c))
      = det_fn n (\<lambda>r c. g (Suc r) (if c < j then c else Suc c))" for j
    by (rule Suc.IH) (simp add: Suc.prems)
  moreover have "f 0 j = g 0 j" if "j < Suc n" for j
    using that by (simp add: Suc.prems)
  ultimately show ?case
    unfolding det_fn.simps by (intro sum.cong) simp_all
qed

lemma cofactor_cong:
  assumes "\<And>i j. i < n \<Longrightarrow> j < n \<Longrightarrow> f i j = g i j" "a < n" "b < n"
  shows "cofactor n f a b = cofactor n g a b"
proof -
  have "det_fn (n - 1) (\<lambda>r c. f (if r < a then r else Suc r) (if c < b then c else Suc c))
      = det_fn (n - 1) (\<lambda>r c. g (if r < a then r else Suc r) (if c < b then c else Suc c))"
    by (rule det_fn_cong) (use assms in auto)
  then show ?thesis by (simp add: cofactor_def)
qed

lemma inv_adj_entry_cong:
  assumes "square_of n J" "square_of n J'"
    and "\<And>i j. i < n \<Longrightarrow> j < n \<Longrightarrow> elem J i j = elem J' i j"
    and "a < n" "b < n"
  shows "(inv_adj J \<bind> (\<lambda>V. elem_at V a b)) = (inv_adj J' \<bind> (\<lambda>V. elem_at V a b))"
  using assms det_fn_cong [of n "elem J" "elem J'"] cofactor_cong [of n "elem J" "elem J'" b a]
  by (simp add: inv_adj_def square_of_def elem_at_def)

lemma adj_cov:
  assumes "0 < w"
  shows "(inv_adj \<lparr>n_rows = 3, n_cols = 3,
                    elem = (\<lambda>i j. Fin (w * ([[4, 2, 2], [2, 2, 1], [2, 1, 2]] ! i ! j)))\<rparr>
           \<bind> (\<lambda>V. elem_at V 1 1)) = Some (Fin (1 / w))"
  using assms
  by (simp add: inv_ev dbl_ev elem_at_def)

lemma gram_cov:
  assumes "i < 3" "j < 3"
  shows "(\<Sum>r<4. elem (with_intercept x_cov) r i * Fin w * elem (with_intercept x_cov) r j)
     = Fin (w * ([[4, 2, 2], [2, 2, 1], [2, 1, 2]] ! i ! j))"
proof -
  from assms have "i = 0 \<or> i = 1 \<or> i = 2" "j = 0 \<or> j = 1 \<or> j = 2" by arith+
  then show ?thesis
    by (elim disjE) (simp_all add: data_ev dbl_ev)
qed

lemma cov_shape:
  "n_rows (with_intercept x_cov) = 4" "n_cols (with_intercept x_cov) = 3"
  "finite_mat (with_intercept x_cov)"
  by (simp_all add: with_intercept_def x_cov_def finite_mat_def finite_dbl_def one_dbl_def)

lemma se_at_cov:
  assumes "n_rows b = 3" "n_cols b = 1"
    and "elem b 0 0 = Fin (- 2)" "elem b 1 0 = Fin 0" "elem b 2 0 = Fin 4"
  shows "se_at ext_example (with_intercept x_cov) b = Some (Fin (sqrt (1 / logit_weight 2)))"
proof -
  let ?X = "with_intercept x_cov"
  let ?w = "logit_weight 2"
  define p where "p = \<lparr>n_rows = 4, n_cols = 1,
     elem = (\<lambda>i j. Fin 1 / (Fin 1 + dexp (- (\<Sum>k<3. elem ?X i k * elem b k j))))\<rparr>"
  have pr: "predictLogitProbs ?X b = Some p"
    using assms(1,2) by (simp add: predictLogitProbs_def mmul_def map_elem_def p_def cov_shape)
  have ex: "(\<Sum>k<3. elem ?X r k * elem b k 0) = Fin (if even r then - 2 else 2)" if "r < 4" for r
  proof -
    from that have "r = 0 \<or> r = 1 \<or> r = 2 \<or> r = 3" by arith
    then show ?thesis
      using assms(3,4,5) by (elim disjE) (simp_all add: data_ev dbl_ev)
  qed
  have pw: "elem p r 0 * (1 - elem p r 0) = Fin ?w" if "r < 4" for r
  proof -
    have "elem p r 0 = Fin 1 / (Fin 1 + dexp (- Fin (if even r then - 2 else 2)))"
      unfolding p_def using ex [OF that] by simp
    also have "\<dots> = Fin (sigmoid (if even r then - 2 else 2))"
      by (rule sigmoid_dbl)
    finally have "elem p r 0 * (1 - elem p r 0) = Fin (logit_weight (if even r then - 2 else 2))"
      by (simp only: logit_weight_dbl)
    also have "logit_weight (if even r then - 2 else 2) = ?w"
      using logit_weight_minus [of 2] by simp
    finally show ?thesis .
  qed
  from weighted_gram_value [of p ?X]
  obtain J where J: "weighted_gram ?X p = Some J" "square_of 3 J"
    and Je: "\<And>i j. i < 3 \<Longrightarrow> elem J i j =
               (\<Sum>r<4. elem ?X r i * (elem p r 0 * (1 - elem p r 0)) * elem ?X r j)"
    by (auto simp: cov_shape p_def)
  let ?J' = "\<lparr>n_rows = 3, n_cols = 3,
               elem = (\<lambda>i j. Fin (?w * ([[4, 2, 2], [2, 2, 1], [2, 1, 2]] ! i ! j)))\<rparr>"
  have agree: "elem J i j = elem ?J' i j" if "i < 3" "j < 3" for i j
  proof -
    have "elem J i j = (\<Sum>r<4. elem ?X r i * Fin ?w * elem ?X r j)"
      unfolding Je [OF that(1)] by (intro sum.cong) (simp_all add: pw)
    then show ?thesis by (simp add: gram_cov [OF that])
  qed
  have "(inv_adj J \<bind> (\<lambda>V. elem_at V 1 1)) = (inv_adj ?J' \<bind> (\<lambda>V. elem_at V 1 1))"
    by (rule inv_adj_entry_cong [of 3]) (use J(2) agree in \<open>simp_all add: square_of_def\<close>)
  also have "\<dots> = Some (Fin (1 / ?w))"
    by (rule adj_cov) (rule logit_weight_pos)
  finally have inv: "(inv_adj J \<bind> (\<lambda>V. elem_at V 1 1)) = Some (Fin (1 / ?w))" .
  have "0 \<le> 1 / ?w" using logit_weight_pos [of 2] by simp
  then have "pow_half (Fin (1 / ?w)) = Fin (sqrt (1 / ?w))" by simp
  with inv show ?thesis
    by (auto simp: se_at_def information_def pr J(1) ext_example_def split: Option.bind_splits)
qed

lemma claimed_se_differs: "Fin (sqrt (1 / logit_weight 2)) \<noteq> Fin 2"
proof
  assume "Fin (sqrt (1 / logit_weight 2)) = Fin 2"
  then have "sqrt (1 / logit_weight 2) = 2" by simp
  then have "1 / logit_weight 2 = 2\<^sup>2"
    using logit_weight_pos [of 2] by (metis real_sqrt_pow2 less_imp_le zero_le_divide_1_iff)
  then have "logit_weight 2 = 1 / 4"
    using logit_weight_pos [of 2] by (simp add: field_simps)
  then show False using logit_weight_quarter [of 2] by simp
qed

lemma std_normal_cdf_0: "std_normal_cdf 0 = 1 / 2"
  by (simp add: std_normal_cdf_def)

lemma nr_cov_iterates:
  "map_option (map (\<lambda>b. (n_rows b, n_cols b, elem b 0 0, elem b 1 0, elem b 2 0)))
     (nr_iterates ext_example y_four (with_intercept x_cov) False)
   = Some [(3, 1, Fin 0, Fin 0, Fin 0), (3, 1, Fin (- 2), Fin 0, Fin 4)]"
  by (simp add: nr_iterates_def nr_ev mat_ev inv_ev data_ev dbl_ev)

lemma nr_cov_result:
  "newtonRaphson ext_example k y_four (with_intercept x_cov) False
     = Returned (k\<lparr>beta := Fin 0, standard_error := Fin 2, p_val := Fin 1\<rparr>)"
  by (simp add: nr_ev mat_ev inv_ev data_ev dbl_ev std_normal_cdf_0)

lemma times_dbl_swap: "a * b * c = a * c * (b :: dbl)"
  by (metis times_dbl_assoc times_dbl_commute)

lemma varCovarMat_fisher: "varCovarMat E X b = fisher_loops E X b \<bind> inv_covar E"
  by (simp add: varCovarMat_def fisher_loops_def)

lemma fisher_loops_value:
  assumes "n_cols b = 1" "predictLogitProbs X b = Some p"
  shows "\<exists>I. fisher_loops E X b = Some I \<and> square_of (n_cols X) I
           \<and> (\<forall>i<n_cols X. \<forall>j<n_cols X.
                 elem I i j = (\<Sum>r<n_rows X. elem p r 0 * (Fin 1 - elem p r 0)
                                  * elem X r (min i j) * elem X r (max i j)))"
proof -
  from predictLogitProbs_shape [OF assms(2)] assms(1)
  have sh: "n_rows p = n_rows X" "n_cols p = 1" by simp_all
  have nb: "n_elem b = n_cols X"
    using assms by (auto simp: predictLogitProbs_def mmul_def n_elem_def split: if_splits)
  define yt where "yt = \<lparr>n_rows = n_rows p, n_cols = n_cols p,
                          elem = (\<lambda>i j. elem p i j * (Fin 1 - elem p i j))\<rparr>"
  have yt: "schur p (one_minus p) = Some yt"
    by (simp add: schur_def zip_elem_def same_size_def one_minus_def map_elem_def yt_def)
  from info_loops_value [of yt X "\<lparr>n_rows = n_elem b, n_cols = n_elem b, elem = uninit E\<rparr>"]
  obtain I where I: "info_loops X yt \<lparr>n_rows = n_elem b, n_cols = n_elem b, elem = uninit E\<rparr> = Some I"
    "square_of (n_cols X) I"
    "\<forall>r<n_cols X. \<forall>c<n_cols X. elem I r c = info_entry X yt (min r c) (max r c)"
    using sh nb by (auto simp: yt_def square_of_def)
  have "fisher_loops E X b = Some I"
    by (simp add: fisher_loops_def assms(2) yt I(1))
  moreover have "info_entry X yt a c
      = (\<Sum>r<n_rows X. elem p r 0 * (Fin 1 - elem p r 0) * elem X r a * elem X r c)" for a c
    by (simp add: info_entry_def yt_def sh)
  ultimately show ?thesis using I(2,3) by auto
qed

lemma information_value:
  assumes "n_cols b = 1" "predictLogitProbs X b = Some p" "finite_mat X"
  shows "\<exists>J. information X b = Some J \<and> square_of (n_cols X) J
           \<and> (\<forall>i<n_cols X. \<forall>j<n_cols X.
                 elem J i j = (\<Sum>r<n_rows X. elem p r 0 * (Fin 1 - elem p r 0)
                                  * elem X r (min i j) * elem X r (max i j)))"
proof -
  from predictLogitProbs_shape [OF assms(2)] assms(1)
  have sh: "n_cols p = 1" "n_rows p = n_rows X" by simp_all
  from weighted_gram_value [OF sh assms(3)]
  obtain J where J: "weighted_gram X p = Some J" "square_of (n_cols X) J"
    and Je: "\<And>i j. i < n_cols X \<Longrightarrow> elem J i j =
               (\<Sum>r<n_rows X. elem X r i * (elem p r 0 * (1 - elem p r 0)) * elem X r j)"
    by blast
  have "elem J i j = (\<Sum>r<n_rows X. elem p r 0 * (Fin 1 - elem p r 0)
                         * elem X r (min i j) * elem X r (max i j))"
    if "i < n_cols X" for i j
  proof -
    have "elem X r i * (elem p r 0 * (1 - elem p r 0)) * elem X r j
        = elem p r 0 * (Fin 1 - elem p r 0) * elem X r (min i j) * elem X r (max i j)" for r
    proof (cases "i \<le> j")
      case True
      then show ?thesis
        by (simp add: min_def max_def one_dbl_def
            times_dbl_commute [of "elem X r i" "elem p r 0 * (Fin 1 - elem p r 0)"])
    next
      case False
      then have m: "min i j = j" "max i j = i" by simp_all
      show ?thesis
        unfolding m one_dbl_def
        using times_dbl_swap [of "elem p r 0 * (Fin 1 - elem p r 0)" "elem X r i" "elem X r j"]
        by (simp add: times_dbl_commute [of "elem X r i" "elem p r 0 * (Fin 1 - elem p r 0)"])
    qed
    then show ?thesis unfolding Je [OF that] by simp
  qed
  with J show ?thesis by (auto simp: information_def assms(2))
qed

lemma bfgs_fit_value:
  assumes "bfgs_fit E k y_train x_train X sp = Returned k'"
  shows "\<exists>b V v. find_max E x_train y_train sp = Some b \<and> vat b 1 = Some (beta k')
           \<and> varCovarMat E X b = Some V \<and> elem_at V 1 1 = Some v
           \<and> standard_error k' = pow_half v
           \<and> p_val k' = normalPval E (\<bar>beta k'\<bar> / standard_error k')
           \<and> comments k' = comments k"
  using assms
  by (auto simp: bfgs_fit_def Let_def split: option.splits)

lemma write_fit_value:
  assumes "write_fit E k st = Returned k'"
  shows "\<exists>v. vat (last (fst st)) 1 = Some (beta k') \<and> elem_at (snd st) 1 1 = Some v
           \<and> standard_error k' = pow_half v
           \<and> p_val k' = normalPval E (\<bar>beta k'\<bar> / standard_error k')
           \<and> comments k' = comments k"
  using assms
  by (auto simp: write_fit_def Let_def split: option.splits)

lemma nr_body_step:
  assumes "nr_body E y X f st = Some (st', stop)"
  shows "\<exists>b1 J. fst st' = fst st @ [b1] \<and> information X (last (fst st)) = Some J
           \<and> inv_covar E J = Some (snd st')"
  using assms
  by (auto simp: nr_body_def information_def Let_def split: Option.bind_splits)

lemma nr_loop_state:
  assumes "nr_loop E y X f left st = Some st'" "fst st \<noteq> []"
  shows "st' = st \<or> (\<exists>pre b1 J. fst st' = pre @ [b1] \<and> pre \<noteq> []
                       \<and> information X (last pre) = Some J \<and> inv_covar E J = Some (snd st'))"
  using assms
proof (induction left arbitrary: st)
  case 0
  then show ?case by simp
next
  case (Suc left)
  from Suc.prems(1) obtain st1 stop where b: "nr_body E y X f st = Some (st1, stop)"
    and rest: "(if stop then Some st1 else nr_loop E y X f left st1) = Some st'"
    by (auto split: option.splits)
  from nr_body_step [OF b] obtain b1 J where s1: "fst st1 = fst st @ [b1]"
    "information X (last (fst st)) = Some J" "inv_covar E J = Some (snd st1)"
    by blast
  have here: "\<exists>pre b1 J. fst st1 = pre @ [b1] \<and> pre \<noteq> []
                \<and> information X (last pre) = Some J \<and> inv_covar E J = Some (snd st1)"
    using s1 Suc.prems(2) by blast
  show ?case
  proof (cases stop)
    case True
    with rest have "st' = st1" by simp
    with here show ?thesis by simp
  next
    case False
    with rest have "nr_loop E y X f left st1 = Some st'" by simp
    moreover have "fst st1 \<noteq> []" using s1(1) by simp
    ultimately have "st' = st1 \<or> (\<exists>pre b1 J. fst st' = pre @ [b1] \<and> pre \<noteq> []
                       \<and> information X (last pre) = Some J \<and> inv_covar E J = Some (snd st'))"
      by (rule Suc.IH)
    with here show ?thesis by auto
  qed
qed

lemma nr_firth_comments:
  assumes "newtonRaphson E k y X True = Returned k'"
  shows "comments k' = comments k \<or> comments k' = comments k @ [''firth-fail'']"
  using assms
  by (auto simp: newtonRaphson.simps add_comment_def dest: write_fit_value
      split: option.splits if_splits)

lemma newtonRaphson_success:
  assumes "newtonRaphson E k y X firth = Returned k'" "comments k' = comments k"
  shows "\<exists>pre b. nr_iterates E y X firth = Some (pre @ [b]) \<and> pre \<noteq> []
           \<and> vat b 1 = Some (beta k')
           \<and> se_at E X (last pre) = Some (standard_error k')
           \<and> p_val k' = normalPval E (\<bar>beta k'\<bar> / standard_error k')"
proof -
  let ?V = "\<lparr>n_rows = 0, n_cols = 0, elem = uninit E\<rparr>"
  from assms(1) obtain s where s: "nr_start y (n_cols X) = Some s"
    by (auto simp: newtonRaphson.simps split: option.splits)
  with assms(1) obtain st where st: "nr_loop E y X firth (max_nr_iterations E) ([s], ?V) = Some st"
    by (auto simp: newtonRaphson.simps split: option.splits)
  have wf: "write_fit E k st = Returned k'"
  proof (cases "length (fst st) = max_nr_iterations E")
    case False
    with assms(1) s st show ?thesis by (simp add: newtonRaphson.simps)
  next
    case True
    show ?thesis
    proof (cases firth)
      case True
      with \<open>length (fst st) = max_nr_iterations E\<close> assms(1) s st
      have "k' = add_comment ''firth-fail'' k"
        by (simp add: newtonRaphson.simps)
      then have "comments k' = comments k @ [''firth-fail'']"
        by (simp add: add_comment_def)
      with assms(2) show ?thesis by simp
    next
      case False
      with \<open>length (fst st) = max_nr_iterations E\<close> assms(1) s st
      have "newtonRaphson E (add_comment ''nr-fail'' k) y X True = Returned k'"
        by (simp add: newtonRaphson.simps)
      from nr_firth_comments [OF this] assms(2) show ?thesis
        by (auto simp: add_comment_def)
    qed
  qed
  from write_fit_value [OF wf] obtain v where v: "vat (last (fst st)) 1 = Some (beta k')"
    "elem_at (snd st) 1 1 = Some v" "standard_error k' = pow_half v"
    "p_val k' = normalPval E (\<bar>beta k'\<bar> / standard_error k')"
    by blast
  from nr_loop_state [OF st] v(2)
  obtain pre b1 J where p: "fst st = pre @ [b1]" "pre \<noteq> []"
    "information X (last pre) = Some J" "inv_covar E J = Some (snd st)"
    by (auto simp: elem_at_def)
  have "se_at E X (last pre) = Some (standard_error k')"
    using v(2) by (simp add: se_at_def p(3,4) v(3))
  moreover have "nr_iterates E y X firth = Some (pre @ [b1])"
    by (simp add: nr_iterates_def s st p(1))
  ultimately show ?thesis using p(1,2) v(1,4) by auto
qed

lemma bfgs_four_result:
  "bfgs_fit ext_bfgs k y_four x_four (with_intercept x_four) sp
     = Returned (k\<lparr>beta := Fin 0, standard_error := Fin 2, p_val := Fin 1\<rparr>)"
  by (simp add: bfgs_fit_def varCovarMat_def info_loops_def info_cell_def col_at_def col_vec_def
      upt_rec normalPval_def mat_ev inv_ev data_ev dbl_ev std_normal_cdf_0)

text \<open>
  C6, as the code has it. After the gradient stage the standard error is the square
  root of entry \<open>(1, 1)\<close> of \<open>inv_covar\<close> of the information matrix at the fitted
  vector, whose cell \<open>(i, j)\<close> holds the sum computed for the cell of the upper
  triangle, \<open>(min i j, max i j)\<close>, and which is \<open>X\<^sup>T W X\<close> when the design matrix is
  finite. After a Newton-Raphson fit that adds no tag, it is the square root of entry
  \<open>(1, 1)\<close> of \<open>inv_covar\<close> of \<open>X\<^sup>T W X\<close> at the iterate before the reported one.
  In both, the p-value is \<open>2 (1 - \<Phi>(|W|))\<close> with \<open>W\<close> the absolute coefficient over
  the standard error.
\<close>

theorem reported_standard_error:
  "(bfgs_fit E k y_train x_train X sp = Returned k'
      \<and> (\<forall>b. find_max E x_train y_train sp = Some b \<longrightarrow> n_cols b = 1) \<longrightarrow>
    (\<exists>b p I V v. find_max E x_train y_train sp = Some b \<and> vat b 1 = Some (beta k')
       \<and> predictLogitProbs X b = Some p \<and> fisher_loops E X b = Some I
       \<and> (\<forall>i<n_cols X. \<forall>j<n_cols X.
             elem I i j = (\<Sum>r<n_rows X. elem p r 0 * (Fin 1 - elem p r 0)
                               * elem X r (min i j) * elem X r (max i j)))
       \<and> (finite_mat X \<longrightarrow>
             (\<exists>J. information X b = Some J
                  \<and> (\<forall>i<n_cols X. \<forall>j<n_cols X. elem J i j = elem I i j)))
       \<and> inv_covar E I = Some V \<and> elem_at V 1 1 = Some v
       \<and> standard_error k' = pow_half v
       \<and> p_val k' = Fin 2 * (Fin 1 - normal_cdf E \<bar>\<bar>beta k'\<bar> / standard_error k'\<bar>)))
   \<and> (newtonRaphson E k y_train X firth = Returned k' \<and> comments k' = comments k \<longrightarrow>
    (\<exists>pre b. nr_iterates E y_train X firth = Some (pre @ [b]) \<and> pre \<noteq> []
       \<and> vat b 1 = Some (beta k')
       \<and> se_at E X (last pre) = Some (standard_error k')
       \<and> p_val k' = Fin 2 * (Fin 1 - normal_cdf E \<bar>\<bar>beta k'\<bar> / standard_error k'\<bar>)))"
proof (intro conjI impI)
  assume a: "bfgs_fit E k y_train x_train X sp = Returned k'
      \<and> (\<forall>b. find_max E x_train y_train sp = Some b \<longrightarrow> n_cols b = 1)"
  from bfgs_fit_value [of E k y_train x_train X sp k'] a
  obtain b V v where b: "find_max E x_train y_train sp = Some b" "vat b 1 = Some (beta k')"
    "varCovarMat E X b = Some V" "elem_at V 1 1 = Some v" "standard_error k' = pow_half v"
    "p_val k' = normalPval E (\<bar>beta k'\<bar> / standard_error k')"
    by blast
  from a b(1) have col: "n_cols b = 1" by blast
  from b(3) obtain p where p: "predictLogitProbs X b = Some p"
    by (auto simp: varCovarMat_def split: Option.bind_splits)
  from fisher_loops_value [OF col p, of E]
  obtain I where I: "fisher_loops E X b = Some I"
    "\<forall>i<n_cols X. \<forall>j<n_cols X.
       elem I i j = (\<Sum>r<n_rows X. elem p r 0 * (Fin 1 - elem p r 0)
                         * elem X r (min i j) * elem X r (max i j))"
    by blast
  from b(3) I(1) have V: "inv_covar E I = Some V"
    by (simp add: varCovarMat_fisher)
  have J: "\<exists>J. information X b = Some J
             \<and> (\<forall>i<n_cols X. \<forall>j<n_cols X. elem J i j = elem I i j)" if "finite_mat X"
    using information_value [OF col p that] I(2) by auto
  from b(1,2) p I V b(4,5,6) J
  show "\<exists>b p I V v. find_max E x_train y_train sp = Some b \<and> vat b 1 = Some (beta k')
       \<and> predictLogitProbs X b = Some p \<and> fisher_loops E X b = Some I
       \<and> (\<forall>i<n_cols X. \<forall>j<n_cols X.
             elem I i j = (\<Sum>r<n_rows X. elem p r 0 * (Fin 1 - elem p r 0)
                               * elem X r (min i j) * elem X r (max i j)))
       \<and> (finite_mat X \<longrightarrow>
             (\<exists>J. information X b = Some J
                  \<and> (\<forall>i<n_cols X. \<forall>j<n_cols X. elem J i j = elem I i j)))
       \<and> inv_covar E I = Some V \<and> elem_at V 1 1 = Some v
       \<and> standard_error k' = pow_half v
       \<and> p_val k' = Fin 2 * (Fin 1 - normal_cdf E \<bar>\<bar>beta k'\<bar> / standard_error k'\<bar>)"
    unfolding normalPval_def by blast
next
  assume a: "newtonRaphson E k y_train X firth = Returned k' \<and> comments k' = comments k"
  from newtonRaphson_success [of E k y_train X firth k'] a
  show "\<exists>pre b. nr_iterates E y_train X firth = Some (pre @ [b]) \<and> pre \<noteq> []
       \<and> vat b 1 = Some (beta k')
       \<and> se_at E X (last pre) = Some (standard_error k')
       \<and> p_val k' = Fin 2 * (Fin 1 - normal_cdf E \<bar>\<bar>beta k'\<bar> / standard_error k'\<bar>)"
    unfolding normalPval_def by blast
qed

theorem reported_standard_error_witness:
  "(\<exists>b I V v. find_max ext_bfgs x_four y_four (doLogit_start y_four 2) = Some b
        \<and> fisher_loops ext_bfgs (with_intercept x_four) b = Some I
        \<and> inv_covar ext_bfgs I = Some V \<and> elem_at V 1 1 = Some v \<and> pow_half v = Fin 2)
   \<and> (\<exists>pre b. nr_iterates ext_example y_four (with_intercept x_cov) False = Some (pre @ [b])
        \<and> vat b 1 = Some (Fin 0)
        \<and> se_at ext_example (with_intercept x_cov) (last pre) = Some (Fin 2))"
proof -
  let ?k1 = "(kmer_example x_four)\<lparr>beta := Fin 0, standard_error := Fin 2, p_val := Fin 1\<rparr>"
  let ?k2 = "(kmer_example x_cov)\<lparr>beta := Fin 0, standard_error := Fin 2, p_val := Fin 1\<rparr>"
  have h1: "bfgs_fit ext_bfgs (kmer_example x_four) y_four x_four (with_intercept x_four)
              (doLogit_start y_four 2) = Returned ?k1
          \<and> (\<forall>b. find_max ext_bfgs x_four y_four (doLogit_start y_four 2) = Some b
                 \<longrightarrow> n_cols b = 1)"
    by (simp add: bfgs_four_result) (simp add: ext_bfgs_def zeros_def fill_def)
  have h2: "newtonRaphson ext_example (kmer_example x_cov) y_four (with_intercept x_cov) False
              = Returned ?k2 \<and> comments ?k2 = comments (kmer_example x_cov)"
    by (simp add: nr_cov_result)
  from reported_standard_error [where E = ext_bfgs and k = "kmer_example x_four"
      and y_train = y_four and x_train = x_four and X = "with_intercept x_four"
      and sp = "doLogit_start y_four 2" and k' = ?k1, THEN conjunct1, rule_format, OF h1]
  have 1: "\<exists>b I V v. find_max ext_bfgs x_four y_four (doLogit_start y_four 2) = Some b
        \<and> fisher_loops ext_bfgs (with_intercept x_four) b = Some I
        \<and> inv_covar ext_bfgs I = Some V \<and> elem_at V 1 1 = Some v \<and> pow_half v = Fin 2"
    by auto
  from reported_standard_error [where E = ext_example and k = "kmer_example x_cov"
      and y_train = y_four and X = "with_intercept x_cov" and firth = False and k' = ?k2,
      THEN conjunct2, rule_format, OF h2]
  have 2: "\<exists>pre b. nr_iterates ext_example y_four (with_intercept x_cov) False = Some (pre @ [b])
        \<and> vat b 1 = Some (Fin 0)
        \<and> se_at ext_example (with_intercept x_cov) (last pre) = Some (Fin 2)"
    by auto
  from 1 2 show ?thesis by blast
qed

text \<open>
  C6 as stated fails in the Newton-Raphson stage. On four samples with a covariate
  equal to the response the first pass leaves coefficient 1 at 0 and the fit is
  reported with standard error 2, from the information matrix at the starting point;
  at the fitted vector \<open>(-2, 0, 4)\<close> the claimed value is \<open>sqrt (1 / w)\<close> with
  \<open>w = \<sigma>(2) (1 - \<sigma>(2))\<close>, which is not 2.
\<close>

theorem newtonRaphson_se_not_at_fit:
  "newtonRaphson ext_example (kmer_example x_cov) y_four (with_intercept x_cov) False
     = Returned ((kmer_example x_cov)
         \<lparr>beta := Fin 0, standard_error := Fin 2, p_val := Fin 1\<rparr>)
   \<and> map_option (\<lambda>b. [elem b 0 0, elem b 1 0, elem b 2 0])
        (nr_fitted ext_example y_four (with_intercept x_cov) False)
      = Some [Fin (- 2), Fin 0, Fin 4]
   \<and> (nr_fitted ext_example y_four (with_intercept x_cov) False
         \<bind> se_at ext_example (with_intercept x_cov))
      = Some (Fin (sqrt (1 / logit_weight 2)))
   \<and> Fin (sqrt (1 / logit_weight 2)) \<noteq> Fin 2"
proof -
  from nr_cov_iterates obtain s b where it:
    "nr_iterates ext_example y_four (with_intercept x_cov) False = Some [s, b]"
    and b: "n_rows b = 3" "n_cols b = 1"
    "elem b 0 0 = Fin (- 2)" "elem b 1 0 = Fin 0" "elem b 2 0 = Fin 4"
    by (auto simp: map_eq_Cons_conv)
  have f: "nr_fitted ext_example y_four (with_intercept x_cov) False = Some b"
    by (simp add: nr_fitted_def it)
  show ?thesis
    using b(3,4,5) claimed_se_differs
    by (simp add: nr_cov_result f se_at_cov [OF b])
qed

end
